theory Spec2Isabelle
  imports Complex_Main "HOL-Library.Word"
begin

section \<open>Values of the host language\<close>

text \<open>
  The program is TypeScript running in a browser. Its numbers are IEEE doubles; the
  model represents a finite number by the rational it denotes (\<^typ>\<open>rat\<close>) and adds the
  two special values a division or an out-of-range read can produce. The decoder's
  arithmetic (a 16-bit integer divided by \<open>32768\<close>) is exact in binary64 and in binary32, so
  nothing is lost there; the turn synchronizer rounds its quotients to doubles; for the
  playback clock exact arithmetic stands for the rounded one.
  A string is a sequence of UTF-16 code units, and \<open>.length\<close> counts code units.
\<close>

type_synonym byte = "8 word"
type_synonym int16 = "16 word"
type_synonym code_unit = "16 word"
type_synonym jsstring = "code_unit list"

datatype number = NaN | Infinity | Num rat

datatype js_error =
    RangeError \<comment> \<open>typed-array view on a buffer whose size is not a multiple of the element size\<close>
  | NotSupportedError \<comment> \<open>Web Audio: argument outside its nominal range\<close>
  | InvalidCharacterError \<comment> \<open>\<open>atob\<close> on a string that is not base64\<close>
  | RequestFailed \<comment> \<open>an external request rejected, or its answer did not parse\<close>

definition js :: "string \<Rightarrow> jsstring" where
  "js s = map (\<lambda>c. of_nat (of_char c)) s"

section \<open>PCM decoder (\<open>services/geminiService\<close>)\<close>

subsection \<open>Platform operations the decoder calls\<close>

text \<open>
  \<open>new Int16Array(data.buffer)\<close>: a view of the whole underlying buffer as 16-bit signed
  integers in platform byte order (little-endian on every browser platform). ECMAScript
  throws a \<open>RangeError\<close> when the byte length of the buffer is not a multiple of 2.
  \<open>data\<close> below is the content of \<open>data.buffer\<close>; for the array that \<open>decodeBase64\<close>
  allocates this is the array itself.
\<close>

definition le16 :: "byte \<Rightarrow> byte \<Rightarrow> int16" where
  "le16 lo hi = word_of_nat (unat lo + 256 * unat hi)"

fun byte_pairs :: "byte list \<Rightarrow> int16 list" where
  "byte_pairs (lo # hi # rest) = le16 lo hi # byte_pairs rest"
| "byte_pairs _ = []"

definition Int16Array :: "byte list \<Rightarrow> js_error + int16 list" where
  "Int16Array buffer =
     (if length buffer mod 2 \<noteq> 0 then Inl RangeError else Inr (byte_pairs buffer))"

text \<open>
  Reading a typed array out of range gives \<open>undefined\<close>, and \<open>undefined / 32768.0\<close> is
  \<open>NaN\<close>; an element in range is read as a two's-complement integer. Writing a typed
  array out of range does nothing.
\<close>

definition sample_at :: "int16 list \<Rightarrow> nat \<Rightarrow> number" where
  "sample_at dataInt16 k =
     (if k < length dataInt16 then Num (of_int (sint (dataInt16 ! k)) / 32768) else NaN)"

definition typed_array_set :: "'a list \<Rightarrow> nat \<Rightarrow> 'a \<Rightarrow> 'a list" where
  "typed_array_set xs i v = (if i < length xs then xs[i := v] else xs)"

text \<open>
  \<open>ctx.createBuffer(numberOfChannels, length, sampleRate)\<close>. The \<open>length\<close> argument is a
  Web IDL \<open>unsigned long\<close>: a non-negative finite number is truncated to an integer modulo
  \<open>2^32\<close>. The Web Audio API throws \<open>NotSupportedError\<close> when an argument is zero or
  outside its nominal range; every implementation accepts 1 to 32 channels and rates from
  8000 to 96000 Hz, and the model rejects what lies outside these guaranteed ranges. The new
  buffer holds zeros.
\<close>

record AudioBuffer =
  numberOfChannels :: nat
  frames :: nat \<comment> \<open>\<open>buffer.length\<close>\<close>
  sampleRate :: nat
  channelData :: "number list list"

definition duration :: "AudioBuffer \<Rightarrow> rat" where
  "duration buffer = of_nat (frames buffer) / of_nat (sampleRate buffer)"

definition unsigned_long :: "rat \<Rightarrow> nat" where
  "unsigned_long x = nat \<lfloor>x\<rfloor> mod 2 ^ 32"

definition createBuffer :: "nat \<Rightarrow> nat \<Rightarrow> nat \<Rightarrow> js_error + AudioBuffer" where
  "createBuffer numChannels len rate =
     (if numChannels = 0 \<or> 32 < numChannels \<or> len = 0 \<or> rate < 8000 \<or> 96000 < rate
      then Inl NotSupportedError
      else Inr \<lparr>numberOfChannels = numChannels, frames = len, sampleRate = rate,
                channelData = replicate numChannels (replicate len (Num 0))\<rparr>)"

subsection \<open>\<open>decodeAudioData\<close>\<close>

text \<open>
  \<open>frameCount\<close> is the quotient \<open>dataInt16.length / numChannels\<close> as a number, not an
  integer. The loop \<open>for (let i = 0; i < frameCount; i++)\<close> therefore visits the naturals
  below its ceiling, while the buffer was allocated with its integer part.
\<close>

definition fill_channel :: "int16 list \<Rightarrow> rat \<Rightarrow> nat \<Rightarrow> nat \<Rightarrow> number list \<Rightarrow> number list" where
  "fill_channel dataInt16 frameCount numChannels channel =
     fold (\<lambda>i channelData.
             typed_array_set channelData i (sample_at dataInt16 (i * numChannels + channel)))
          [0 ..< nat \<lceil>frameCount\<rceil>]"

definition decodeAudioData :: "byte list \<Rightarrow> nat \<Rightarrow> nat \<Rightarrow> js_error + AudioBuffer" where
  "decodeAudioData data rate numChannels =
     (case Int16Array data of
        Inl e \<Rightarrow> Inl e
      | Inr dataInt16 \<Rightarrow>
          let frameCount = of_nat (length dataInt16) / of_nat numChannels in
          (case createBuffer numChannels (unsigned_long frameCount) rate of
             Inl e \<Rightarrow> Inl e
           | Inr buffer \<Rightarrow>
               Inr (fold (\<lambda>channel b.
                            b\<lparr>channelData := (channelData b)
                                [channel := fill_channel dataInt16 frameCount numChannels channel
                                              (channelData b ! channel)]\<rparr>)
                         [0 ..< numChannels] buffer)))"

text \<open>The signed 16-bit integer whose little-endian bytes are \<open>lo\<close>, \<open>hi\<close>, as the spec words it.\<close>

definition spec_s16le :: "byte \<Rightarrow> byte \<Rightarrow> int" where
  "spec_s16le lo hi =
     (let u = int (unat lo) + 256 * int (unat hi) in if u < 32768 then u else u - 65536)"

text \<open>
  Sample \<open>i\<close> of channel \<open>ch\<close> as the spec states it: the little-endian signed 16-bit integer
  read from byte pair \<open>i * c + ch\<close>, divided by 32768.
\<close>

definition spec_sample :: "byte list \<Rightarrow> nat \<Rightarrow> nat \<Rightarrow> nat \<Rightarrow> rat" where
  "spec_sample data c i ch =
     of_int (spec_s16le (data ! (2 * (i * c + ch))) (data ! (2 * (i * c + ch) + 1))) / 32768"

section \<open>Scenario data (\<open>types.ts\<close>)\<close>

text \<open>
  The objects come from \<open>JSON.parse\<close> of a service response and are not validated, so the
  union-typed fields (\<open>role\<close>, \<open>voice\<close>) are plain strings at run time. Field names that
  clash with Isabelle names carry a prefix: \<open>turn_text\<close> is \<open>text\<close>, \<open>vocab_word\<close> is \<open>word\<close>.
\<close>

datatype Level = Beginner | Intermediate | Advanced
datatype Topic = Job_Interview | Work_Daily | Casual
datatype Duration = One_Minute | Three_Minutes | Five_Minutes

record DialogueTurn =
  speaker :: jsstring
  turn_text :: jsstring
  persianText :: jsstring
  turn_role :: jsstring

record VocabularyItem =
  vocab_word :: jsstring
  partOfSpeech :: jsstring
  englishMeaning :: jsstring
  persianMeaning :: jsstring
  isCustom :: "bool option"

record Participant =
  participant_name :: jsstring
  participant_role :: jsstring
  voice :: jsstring

record Scenario =
  scenario_id :: jsstring
  title :: jsstring
  scenario_context :: jsstring
  participants :: "Participant list"
  dialogue :: "DialogueTurn list"
  vocabulary :: "VocabularyItem list"

datatype AppStatus = IDLE | SELECTING_LEVEL | GENERATING_TEXT | GENERATING_AUDIO | READY | ERROR

section \<open>Session controller (\<open>App\<close>)\<close>

text \<open>
  The component state is a record of its \<open>useState\<close> cells (\<open>visibleTranslations\<close>, which only
  the layout reads, is left out). \<open>requests\<close> is a log of the calls made to the external
  service, oldest first; it is not a variable of the program.

  A handler runs in the closure of the render that created it: the state variables it reads
  are constants captured at that render, and a \<open>set...\<close> call inside the handler changes the
  state of the next render, not these constants. The handlers below read the captured values
  from the state \<open>s\<close> they are given, and pass them on explicitly where the source reads them
  after a \<open>set...\<close> call. An \<open>async\<close> function is cut at each \<open>await\<close> into the part that
  runs at once and the continuations that run when the awaited request settles.
\<close>

datatype request =
    GenerateScenario Level Topic Duration jsstring
  | GenerateAudio Scenario bool
  | GetWordDefinition jsstring jsstring

record app =
  status :: AppStatus
  selectedLevel :: Level
  selectedTopic :: Topic
  selectedDuration :: Duration
  scenario :: "Scenario option"
  audioData :: "jsstring option"
  error :: "jsstring option"
  playbackProgress :: rat
  customVocab :: "VocabularyItem list"
  isSlowMode :: bool
  isLookingUp :: bool
  requests :: "request list"

definition initial_app :: app where
  "initial_app = \<lparr>status = IDLE, selectedLevel = Intermediate, selectedTopic = Job_Interview,
     selectedDuration = One_Minute, scenario = None, audioData = None, error = None,
     playbackProgress = 0, customVocab = [], isSlowMode = False, isLookingUp = False,
     requests = []\<rparr>"

subsection \<open>\<open>startPractice\<close>\<close>

definition startPractice_catch :: "app \<Rightarrow> app" where
  "startPractice_catch s =
     s\<lparr>error := Some (js ''Failed to create session. Please try again.''), status := ERROR\<rparr>"

text \<open>The continuation after \<open>await generateAudio(...)\<close>.\<close>

definition startPractice_audio :: "js_error + jsstring \<Rightarrow> app \<Rightarrow> app" where
  "startPractice_audio outcome s =
     (case outcome of
        Inl e \<Rightarrow> startPractice_catch s
      | Inr base64Audio \<Rightarrow> s\<lparr>audioData := Some base64Audio, status := READY\<rparr>)"

text \<open>The continuation after \<open>await generateScenario(...)\<close>; it ends by requesting the audio.\<close>

definition startPractice_scenario :: "bool \<Rightarrow> js_error + Scenario \<Rightarrow> app \<Rightarrow> app" where
  "startPractice_scenario useSlow outcome s =
     (case outcome of
        Inl e \<Rightarrow> startPractice_catch s
      | Inr newScenario \<Rightarrow>
          s\<lparr>scenario := Some newScenario, status := GENERATING_AUDIO,
            requests := requests s @ [GenerateAudio newScenario useSlow]\<rparr>)"

text \<open>
  The part of \<open>startPractice\<close> that runs at the call. \<open>cap_scenario\<close> and \<open>cap_isSlowMode\<close> are
  the \<open>scenario\<close> and \<open>isSlowMode\<close> of the closure; \<open>overrideSlowMode\<close> is \<open>None\<close> for
  \<open>undefined\<close>.
\<close>

definition useSlow_of :: "bool option \<Rightarrow> bool \<Rightarrow> bool" where
  "useSlow_of overrideSlowMode cap_isSlowMode =
     (case overrideSlowMode of None \<Rightarrow> cap_isSlowMode | Some b \<Rightarrow> b)"

definition startPractice :: "Scenario option \<Rightarrow> bool \<Rightarrow> bool option \<Rightarrow> app \<Rightarrow> app" where
  "startPractice cap_scenario cap_isSlowMode overrideSlowMode s =
     (let useSlow = useSlow_of overrideSlowMode cap_isSlowMode;
          s1 = s\<lparr>error := None, audioData := None, playbackProgress := 0\<rparr>
      in case cap_scenario of
           None \<Rightarrow>
             s1\<lparr>status := GENERATING_TEXT,
                requests := requests s1 @
                  [GenerateScenario (selectedLevel s) (selectedTopic s) (selectedDuration s)
                     (js ''Frontend Team Lead / Junior Developer'')]\<rparr>
         | Some sc \<Rightarrow>
             s1\<lparr>status := GENERATING_AUDIO,
                requests := requests s1 @ [GenerateAudio sc useSlow]\<rparr>)"

text \<open>
  One whole call of \<open>startPractice\<close> with nothing else running in between, given the outcomes
  of the requests it makes. The scenario request is made only when the captured scenario is
  \<open>null\<close>.
\<close>

definition startPractice_run ::
  "Scenario option \<Rightarrow> bool \<Rightarrow> bool option \<Rightarrow> js_error + Scenario \<Rightarrow> js_error + jsstring \<Rightarrow>
     app \<Rightarrow> app" where
  "startPractice_run cap_scenario cap_isSlowMode overrideSlowMode scenario_outcome audio_outcome s =
     (let useSlow = useSlow_of overrideSlowMode cap_isSlowMode;
          s1 = startPractice cap_scenario cap_isSlowMode overrideSlowMode s
      in case cap_scenario of
           Some sc \<Rightarrow> startPractice_audio audio_outcome s1
         | None \<Rightarrow>
             (case scenario_outcome of
                Inl e \<Rightarrow> startPractice_scenario useSlow scenario_outcome s1
              | Inr newScenario \<Rightarrow>
                  startPractice_audio audio_outcome
                    (startPractice_scenario useSlow scenario_outcome s1)))"

subsection \<open>The triggers of generation\<close>

text \<open>
  \<open>Begin Session\<close> is rendered only while the status is \<open>IDLE\<close>; its handler is
  \<open>startPractice\<close> itself, so the click event arrives as \<open>overrideSlowMode\<close>, an object, which
  is not \<open>undefined\<close> and counts as true. \<open>Generate\<close> is disabled while generating; its handler
  calls \<open>setScenario(null)\<close> and then \<open>startPractice\<close>, which still reads the scenario of its
  closure. The
  slow-mode button belongs to the player, which is rendered whenever a scenario is in the
  state, whatever the status, and is never disabled.
\<close>

definition click_begin_session :: "app \<Rightarrow> app" where
  "click_begin_session s =
     (if status s = IDLE then startPractice (scenario s) (isSlowMode s) (Some True) s else s)"

definition click_generate :: "app \<Rightarrow> app" where
  "click_generate s =
     (if status s = GENERATING_TEXT \<or> status s = GENERATING_AUDIO then s
      else startPractice (scenario s) (isSlowMode s) None (s\<lparr>scenario := None\<rparr>))"

definition toggleSlowMode :: "app \<Rightarrow> app" where
  "toggleSlowMode s =
     (let next = \<not> isSlowMode s; s1 = s\<lparr>isSlowMode := next\<rparr>
      in if scenario s \<noteq> None then startPractice (scenario s) (isSlowMode s) (Some next) s1
         else s1)"

definition click_slow_mode :: "app \<Rightarrow> app" where
  "click_slow_mode s = (if scenario s \<noteq> None then toggleSlowMode s else s)"

text \<open>
  One whole generation from each trigger with nothing else running in between: the click,
  then the continuations of the \<open>startPractice\<close> call it makes, given the outcomes of the
  requests. The slow-mode button always finds a scenario in its closure, so its call makes no
  scenario request.
\<close>

definition begin_session_run :: "js_error + Scenario \<Rightarrow> js_error + jsstring \<Rightarrow> app \<Rightarrow> app" where
  "begin_session_run scenario_outcome audio_outcome s =
     (if status s = IDLE
      then startPractice_run (scenario s) (isSlowMode s) (Some True)
             scenario_outcome audio_outcome s
      else s)"

definition generate_run :: "js_error + Scenario \<Rightarrow> js_error + jsstring \<Rightarrow> app \<Rightarrow> app" where
  "generate_run scenario_outcome audio_outcome s =
     (if status s = GENERATING_TEXT \<or> status s = GENERATING_AUDIO then s
      else startPractice_run (scenario s) (isSlowMode s) None
             scenario_outcome audio_outcome (s\<lparr>scenario := None\<rparr>))"


subsection \<open>\<open>handleWordClick\<close>\<close>subsection \<open>\<open>handleWordClick\<close>\<close>

text \<open>
  \<open>word.replace(/[.,\/#!$%\^&\*;:{}=\-_`~()]/g, "")\<close> deletes every occurrence of the 21
  characters of the class. \<open>toLowerCase\<close> is the platform's Unicode case mapping and is a
  parameter of the continuation.
\<close>

definition punctuation :: "code_unit list" where
  "punctuation = js ''.,/#!$%^&*;:{}=-_`~()''"

definition cleanWord_of :: "jsstring \<Rightarrow> jsstring" where
  "cleanWord_of word = filter (\<lambda>c. c \<notin> set punctuation) word"

definition handleWordClick :: "jsstring \<Rightarrow> jsstring \<Rightarrow> app \<Rightarrow> app" where
  "handleWordClick word context s =
     (let cleanWord = cleanWord_of word
      in if isLookingUp s \<or> cleanWord = [] then s
         else s\<lparr>isLookingUp := True,
                requests := requests s @ [GetWordDefinition cleanWord context]\<rparr>)"

text \<open>The continuation after \<open>await getWordDefinition(...)\<close>, with the \<open>finally\<close> block.\<close>

definition handleWordClick_definition ::
  "(jsstring \<Rightarrow> jsstring) \<Rightarrow> jsstring \<Rightarrow> js_error + VocabularyItem \<Rightarrow> app \<Rightarrow> app" where
  "handleWordClick_definition toLowerCase cleanWord outcome s =
     (case outcome of
        Inl e \<Rightarrow> s\<lparr>isLookingUp := False\<rparr>
      | Inr def \<Rightarrow>
          s\<lparr>customVocab :=
               (if \<exists>v \<in> set (customVocab s).
                     toLowerCase (vocab_word v) = toLowerCase cleanWord
                then customVocab s
                else def\<lparr>isCustom := Some True\<rparr> # customVocab s),
            isLookingUp := False\<rparr>)"

section \<open>Turn synchronizer (\<open>activeTurnIndex\<close>)\<close>

subsection \<open>Division of doubles\<close>

text \<open>
  The synchronizer compares quotients, and a quotient of two doubles is the exact quotient
  rounded to the nearest double (IEEE 754 binary64, ties to the even significand). A double
  is represented by the rational it denotes. \<open>binade\<close> gives the exponent \<open>e\<close> of a positive
  \<open>x\<close>, \<open>2^e \<le> x < 2^(e+1)\<close>, kept at \<open>-1022\<close> for the subnormal numbers below; the doubles
  of that binade are the multiples of \<open>2^(e-52)\<close>. The two exponent searches double or halve
  \<open>x\<close> at most as often as the format has exponents.
\<close>

fun exponent_below :: "nat \<Rightarrow> rat \<Rightarrow> int" where
  "exponent_below 0 x = 0"
| "exponent_below (Suc n) x = (if 1 \<le> x then 0 else exponent_below n (2 * x) - 1)"

fun exponent_above :: "nat \<Rightarrow> rat \<Rightarrow> int" where
  "exponent_above 0 x = 0"
| "exponent_above (Suc n) x = (if x < 2 then 0 else exponent_above n (x / 2) + 1)"

definition binade :: "rat \<Rightarrow> int" where
  "binade x = (if 1 \<le> x then exponent_above 1024 x else exponent_below 1022 x)"

definition pow2 :: "int \<Rightarrow> rat" where
  "pow2 e = (if 0 \<le> e then 2 ^ nat e else 1 / 2 ^ nat (- e))"

definition round_half_even :: "rat \<Rightarrow> int" where
  "round_half_even q =
     (let f = \<lfloor>q\<rfloor>; r = q - of_int f
      in if r < 1 / 2 then f else if 1 / 2 < r then f + 1 else if even f then f else f + 1)"

definition round_to_double :: "rat \<Rightarrow> rat" where
  "round_to_double x =
     (if x = 0 then 0
      else let a = \<bar>x\<bar>; u = pow2 (binade a - 52)
           in sgn x * (of_int (round_half_even (a / u)) * u))"

definition is_double :: "rat \<Rightarrow> bool" where
  "is_double x = (round_to_double x = x \<and> \<bar>x\<bar> < 2 ^ 1024)"

text \<open>
  \<open>charCounter / totalChars\<close> for two non-negative integers: \<open>0 / 0\<close> is \<open>NaN\<close>, a positive
  number over zero is \<open>Infinity\<close>, as is a quotient that rounds beyond the largest double.
  Every comparison with \<open>NaN\<close> is false. String lengths and their sums are integers far
  below \<open>2^53\<close>, which doubles hold and add exactly, so they are natural numbers here.
\<close>

definition js_div :: "nat \<Rightarrow> nat \<Rightarrow> number" where
  "js_div a b =
     (if b = 0 then (if a = 0 then NaN else Infinity)
      else let q = round_to_double (of_nat a / of_nat b)
           in if 2 ^ 1024 \<le> q then Infinity else Num q)"

definition js_ge :: "rat \<Rightarrow> number \<Rightarrow> bool" where
  "js_ge x y = (case y of NaN \<Rightarrow> False | Infinity \<Rightarrow> False | Num q \<Rightarrow> q \<le> x)"

definition js_lt :: "rat \<Rightarrow> number \<Rightarrow> bool" where
  "js_lt x y = (case y of NaN \<Rightarrow> False | Infinity \<Rightarrow> True | Num q \<Rightarrow> x < q)"

subsection \<open>\<open>activeTurnIndex\<close>\<close>

text \<open>The \<open>for\<close> loop over the turns, from index \<open>i\<close> on, with the running \<open>charCounter\<close>.\<close>

fun turn_loop :: "DialogueTurn list \<Rightarrow> nat \<Rightarrow> nat \<Rightarrow> nat \<Rightarrow> rat \<Rightarrow> int" where
  "turn_loop [] i charCounter totalChars progressRatio = - 1"
| "turn_loop (turn # rest) i charCounter totalChars progressRatio =
     (let turnChars = length (turn_text turn)
      in if js_ge progressRatio (js_div charCounter totalChars) \<and>
            js_lt progressRatio (js_div (charCounter + turnChars) totalChars)
         then int i
         else turn_loop rest (Suc i) (charCounter + turnChars) totalChars progressRatio)"

text \<open>
  \<open>playbackProgress\<close> is a finite double (\<open>progress_now\<close>); \<open>0\<close> and \<open>99.5\<close> are doubles and
  the two comparisons with them are exact. \<open>progressRatio\<close> is the rounded quotient
  \<open>playbackProgress / 100\<close>, smaller in magnitude than \<open>playbackProgress\<close>, hence finite.
\<close>

definition activeTurnIndex :: "Scenario option \<Rightarrow> rat \<Rightarrow> int" where
  "activeTurnIndex scenario_now progress_now =
     (case scenario_now of
        None \<Rightarrow> - 1
      | Some sc \<Rightarrow>
          if progress_now = 0 \<or> 199 / 2 \<le> progress_now then - 1
          else
            let totalChars = foldl (\<lambda>acc turn. acc + length (turn_text turn)) 0 (dialogue sc);
                progressRatio = round_to_double (progress_now / 100)
            in turn_loop (dialogue sc) 0 0 totalChars progressRatio)"

text \<open>
  The sub-range of progress a turn owns, as the spec states it: the turn at cumulative
  offset \<open>c\<close> with length \<open>L\<close> owns \<open>[c / totalChars, (c + L) / totalChars)\<close>, and it contains
  \<open>progress / 100\<close>; all in exact arithmetic.
\<close>

definition spec_chars_before :: "DialogueTurn list \<Rightarrow> nat \<Rightarrow> nat" where
  "spec_chars_before turns i = sum_list (map (\<lambda>turn. length (turn_text turn)) (take i turns))"

definition spec_owns :: "DialogueTurn list \<Rightarrow> nat \<Rightarrow> rat \<Rightarrow> bool" where
  "spec_owns turns i r =
     (let totalChars = sum_list (map (\<lambda>turn. length (turn_text turn)) turns);
          c = spec_chars_before turns i;
          L = length (turn_text (turns ! i))
      in totalChars \<noteq> 0 \<and>
         rat_of_nat c / rat_of_nat totalChars \<le> r \<and>
         r < rat_of_nat (c + L) / rat_of_nat totalChars)"

text \<open>
  The same sub-range with its two bounds rounded to doubles, as the division computes them;
  \<open>r\<close> is the rounded \<open>progress / 100\<close>.
\<close>

definition rounded_owns :: "DialogueTurn list \<Rightarrow> nat \<Rightarrow> rat \<Rightarrow> bool" where
  "rounded_owns turns i r =
     (let totalChars = sum_list (map (\<lambda>turn. length (turn_text turn)) turns);
          c = spec_chars_before turns i;
          L = length (turn_text (turns ! i))
      in js_ge r (js_div c totalChars) \<and> js_lt r (js_div (c + L) totalChars))"

definition first_rounded_owner :: "DialogueTurn list \<Rightarrow> rat \<Rightarrow> int" where
  "first_rounded_owner turns r =
     (case find (\<lambda>i. rounded_owns turns i r) [0 ..< length turns] of
        None \<Rightarrow> - 1
      | Some i \<Rightarrow> int i)"

section \<open>Playback engine (\<open>components/VoicePlayer\<close>)\<close>

text \<open>
  The state of the component: the prop \<open>base64Audio\<close>, the \<open>useState\<close> cells and the refs.
  The two display strings are left out. The audio context is represented by whether it
  exists; its clock \<open>currentTime\<close> is the argument \<open>now\<close> of each handler. Three fields
  describe the platform and are not variables of the program: \<open>started\<close> lists the buffer
  sources that have been started and have neither been stopped nor reached their end (handle,
  the variables their \<open>onended\<close> handler captured, start offset); \<open>frames_pending\<close> lists the
  animation-frame requests that have neither run nor been cancelled, with the variables the
  requested \<open>updateProgress\<close> captured; \<open>reported\<close> is the sequence of values passed to
  \<open>onProgressUpdate\<close>. \<open>next_handle\<close> supplies fresh handles; requests get non-zero ones, as
  \<open>requestAnimationFrame\<close> returns.

  \<open>updateProgress\<close> and \<open>onended\<close> are created inside \<open>playFromOffset\<close>. They read the refs
  when they run, but \<open>isPlaying\<close>, \<open>playbackSpeed\<close> and \<open>duration\<close> are constants of the
  closure: the values of the render whose \<open>playFromOffset\<close> was called.
\<close>

record closure =
  cap_isPlaying :: bool
  cap_playbackSpeed :: rat
  cap_duration :: rat

record player =
  base64Audio :: "jsstring option"
  isPlaying :: bool
  progress :: rat
  playbackSpeed :: rat
  audioContextRef :: bool
  sourceNodeRef :: "nat option"
  audioBufferRef :: "AudioBuffer option"
  startTimeRef :: rat
  offsetRef :: rat
  animationFrameRef :: "nat option"
  started :: "(nat \<times> closure \<times> rat) list"
  frames_pending :: "(nat \<times> closure) list"
  next_handle :: nat
  reported :: "rat list"

definition initial_player :: player where
  "initial_player = \<lparr>base64Audio = None, isPlaying = False, progress = 0, playbackSpeed = 1,
     audioContextRef = False, sourceNodeRef = None, audioBufferRef = None, startTimeRef = 0,
     offsetRef = 0, animationFrameRef = None, started = [], frames_pending = [],
     next_handle = 1, reported = []\<rparr>"

definition truthy :: "jsstring option \<Rightarrow> bool" where
  "truthy x = (case x of None \<Rightarrow> False | Some v \<Rightarrow> v \<noteq> [])"

definition without :: "nat \<Rightarrow> (nat \<times> 'a) list \<Rightarrow> (nat \<times> 'a) list" where
  "without h xs = filter (\<lambda>e. fst e \<noteq> h) xs"

text \<open>
  \<open>decodeBase64\<close>: \<open>atob\<close> is the platform's base64 decoder and a parameter; it yields a string
  of code units below 256 or throws. Storing a code unit into a \<open>Uint8Array\<close> keeps its low
  byte.
\<close>

definition decodeBase64 :: "(jsstring \<Rightarrow> js_error + jsstring) \<Rightarrow> jsstring \<Rightarrow> js_error + byte list" where
  "decodeBase64 atob base64 =
     (case atob base64 of Inl e \<Rightarrow> Inl e | Inr binaryString \<Rightarrow> Inr (map ucast binaryString))"

text \<open>
  \<open>loadAudio\<close>. Its \<open>await\<close> is on a promise that is already settled (\<open>decodeAudioData\<close> has
  no \<open>await\<close> of its own), so the buffer is stored before any other event is handled. An
  exception is caught and logged, and the buffer stays as it was.
\<close>

definition loadAudio :: "(jsstring \<Rightarrow> js_error + jsstring) \<Rightarrow> player \<Rightarrow> player" where
  "loadAudio atob s =
     (case base64Audio s of
        None \<Rightarrow> s
      | Some base64 \<Rightarrow>
          if base64 = [] then s
          else
            let s1 = s\<lparr>audioContextRef := True\<rparr>
            in (case decodeBase64 atob base64 of
                  Inl e \<Rightarrow> s1
                | Inr bytes \<Rightarrow>
                    (case decodeAudioData bytes 24000 1 of
                       Inl e \<Rightarrow> s1
                     | Inr buffer \<Rightarrow> s1\<lparr>audioBufferRef := Some buffer\<rparr>)))"

text \<open>
  \<open>stopAudio\<close>. \<open>cancelAnimationFrame\<close> is called with the one handle the ref holds, when that
  is truthy; the ref itself is not cleared.
\<close>

definition stopAudio :: "bool \<Rightarrow> player \<Rightarrow> player" where
  "stopAudio resetOffset s =
     (let s1 = (case sourceNodeRef s of
                  None \<Rightarrow> s
                | Some node \<Rightarrow> s\<lparr>started := without node (started s), sourceNodeRef := None\<rparr>);
          s2 = (case animationFrameRef s1 of
                  None \<Rightarrow> s1
                | Some h \<Rightarrow>
                    if h = 0 then s1 else s1\<lparr>frames_pending := without h (frames_pending s1)\<rparr>);
          s3 = s2\<lparr>isPlaying := False\<rparr>
      in if resetOffset
         then s3\<lparr>progress := 0, offsetRef := 0, reported := reported s3 @ [0]\<rparr>
         else s3)"

text \<open>
  \<open>playFromOffset\<close>, taken as one step at time \<open>now\<close> (its two \<open>await\<close>s, on resuming a
  suspended context and on \<open>loadAudio\<close>, are not interleaved with other events).
\<close>

definition playFromOffset ::
  "(jsstring \<Rightarrow> js_error + jsstring) \<Rightarrow> rat \<Rightarrow> rat \<Rightarrow> player \<Rightarrow> player" where
  "playFromOffset atob startOffset now s =
     (if \<not> truthy (base64Audio s) then s
      else
        let s1 = s\<lparr>audioContextRef := True\<rparr>;
            s2 = (if audioBufferRef s1 = None then loadAudio atob s1 else s1)
        in case audioBufferRef s2 of
             None \<Rightarrow> s2
           | Some buffer \<Rightarrow>
               let clampedOffset = max 0 (min startOffset (duration buffer));
                   s3 = s2\<lparr>offsetRef := clampedOffset\<rparr>;
                   s4 = (case sourceNodeRef s3 of
                           None \<Rightarrow> s3
                         | Some node \<Rightarrow> s3\<lparr>started := without node (started s3)\<rparr>);
                   captured = \<lparr>cap_isPlaying = isPlaying s, cap_playbackSpeed = playbackSpeed s,
                                cap_duration = duration buffer\<rparr>;
                   source = next_handle s4;
                   frame = Suc source
               in s4\<lparr>startTimeRef := now,
                     started := started s4 @ [(source, captured, clampedOffset)],
                     sourceNodeRef := Some source,
                     isPlaying := True,
                     frames_pending := frames_pending s4 @ [(frame, captured)],
                     animationFrameRef := Some frame,
                     next_handle := Suc frame\<rparr>)"

text \<open>
  The body of \<open>updateProgress\<close>, and the browser running the callback of request \<open>h\<close>. A
  captured duration is the duration of a decoded buffer and so positive (\<open>createBuffer\<close>
  rejects a zero length); the quotients by a duration are those of the source for such values.
\<close>

definition updateProgress :: "closure \<Rightarrow> rat \<Rightarrow> player \<Rightarrow> player" where
  "updateProgress captured now s =
     (if \<not> audioContextRef s \<or> \<not> cap_isPlaying captured then s
      else
        let currentPos = offsetRef s + (now - startTimeRef s) * cap_playbackSpeed captured;
            newProgress = min (currentPos / cap_duration captured * 100) 100;
            s1 = s\<lparr>progress := newProgress, reported := reported s @ [newProgress]\<rparr>
        in if newProgress < 100
           then s1\<lparr>frames_pending := frames_pending s1 @ [(Suc (next_handle s1), captured)],
                   animationFrameRef := Some (Suc (next_handle s1)),
                   next_handle := Suc (Suc (next_handle s1))\<rparr>
           else s1)"

definition animation_frame :: "nat \<Rightarrow> rat \<Rightarrow> player \<Rightarrow> player" where
  "animation_frame h now s =
     (case map_of (frames_pending s) h of
        None \<Rightarrow> s
      | Some captured \<Rightarrow>
          updateProgress captured now (s\<lparr>frames_pending := without h (frames_pending s)\<rparr>))"

text \<open>
  The body of \<open>source.onended\<close>, and the source \<open>h\<close> reaching the end of its buffer. The
  platform dispatches \<open>ended\<close> after a \<open>stop()\<close> as well; then \<open>onended\<close> runs with the closure
  of the stopped source, some time after the handler that stopped it.
\<close>

definition onended :: "closure \<Rightarrow> rat \<Rightarrow> player \<Rightarrow> player" where
  "onended captured now s =
     (if \<not> audioContextRef s then s
      else
        let currentPos = offsetRef s + (now - startTimeRef s) * cap_playbackSpeed captured
        in if cap_duration captured - 1 / 5 \<le> currentPos
           then s\<lparr>isPlaying := False, progress := 100, reported := reported s @ [100]\<rparr>
           else s)"

definition source_ended :: "nat \<Rightarrow> rat \<Rightarrow> player \<Rightarrow> player" where
  "source_ended h now s =
     (case map_of (started s) h of
        None \<Rightarrow> s
      | Some (captured, startOffset) \<Rightarrow> onended captured now (s\<lparr>started := without h (started s)\<rparr>))"

text \<open>The controls. \<open>fraction\<close> is \<open>x / rect.width\<close> of the click on the progress bar.\<close>

definition handleTogglePlay :: "(jsstring \<Rightarrow> js_error + jsstring) \<Rightarrow> rat \<Rightarrow> player \<Rightarrow> player" where
  "handleTogglePlay atob now s =
     (if isPlaying s
      then stopAudio False
             (s\<lparr>offsetRef := offsetRef s + (now - startTimeRef s) * playbackSpeed s\<rparr>)
      else playFromOffset atob (offsetRef s) now s)"

definition handleSkip ::
  "(jsstring \<Rightarrow> js_error + jsstring) \<Rightarrow> rat \<Rightarrow> rat \<Rightarrow> player \<Rightarrow> player" where
  "handleSkip atob seconds now s =
     (case audioBufferRef s of
        None \<Rightarrow> s
      | Some buffer \<Rightarrow>
          let currentPos = (if isPlaying s
                            then offsetRef s + (now - startTimeRef s) * playbackSpeed s
                            else offsetRef s);
              newPos = max 0 (min (currentPos + seconds) (duration buffer))
          in if isPlaying s then playFromOffset atob newPos now s
             else
               let prog = newPos / duration buffer * 100
               in s\<lparr>offsetRef := newPos, progress := prog, reported := reported s @ [prog]\<rparr>)"

definition handleProgressBarClick ::
  "(jsstring \<Rightarrow> js_error + jsstring) \<Rightarrow> rat \<Rightarrow> rat \<Rightarrow> player \<Rightarrow> player" where
  "handleProgressBarClick atob fraction now s =
     (case audioBufferRef s of
        None \<Rightarrow> s
      | Some buffer \<Rightarrow>
          let clickedProgress = max 0 (min fraction 1);
              newOffset = clickedProgress * duration buffer
          in if isPlaying s then playFromOffset atob newOffset now s
             else s\<lparr>offsetRef := newOffset, progress := clickedProgress * 100,
                    reported := reported s @ [clickedProgress * 100]\<rparr>)"

definition setPlaybackSpeed :: "rat \<Rightarrow> player \<Rightarrow> player" where
  "setPlaybackSpeed v s = s\<lparr>playbackSpeed := v\<rparr>"

text \<open>
  The effect on \<open>[base64Audio]\<close>, run when the prop takes a new value: first the reset, then
  the load of the new audio when there is one.
\<close>

definition reset_for_new_audio :: "player \<Rightarrow> player" where
  "reset_for_new_audio s = (stopAudio True s)\<lparr>audioBufferRef := None\<rparr>"

definition base64Audio_effect ::
  "(jsstring \<Rightarrow> js_error + jsstring) \<Rightarrow> jsstring option \<Rightarrow> player \<Rightarrow> player" where
  "base64Audio_effect atob new_audio s =
     (let s1 = reset_for_new_audio (s\<lparr>base64Audio := new_audio\<rparr>)
      in if truthy new_audio then loadAudio atob s1 else s1)"

text \<open>
  At most one source is sounding, and it is the one the ref holds: the invariant the engine
  keeps by stopping the previous source before it starts the next.
\<close>

definition one_source :: "player \<Rightarrow> bool" where
  "one_source s = list_all (\<lambda>e. sourceNodeRef s = Some (fst e)) (started s)"

text \<open>
  The position the bookkeeping stands for while playing, as the spec defines it, with the
  speed multiplier of the state. \<open>closure_position\<close> is \<open>currentPos\<close> as \<open>onended\<close> and
  \<open>updateProgress\<close> compute it, with the speed their closure captured: the \<open>playbackRate\<close>
  given to the source that \<open>playFromOffset\<close> started together with them, which the source
  keeps until it stops. For the closure of the source that is sounding this is the position
  in the buffer that is being heard.
\<close>

definition spec_true_position :: "player \<Rightarrow> rat \<Rightarrow> rat" where
  "spec_true_position s now = offsetRef s + (now - startTimeRef s) * playbackSpeed s"

definition closure_position :: "closure \<Rightarrow> rat \<Rightarrow> player \<Rightarrow> rat" where
  "closure_position captured now s =
     offsetRef s + (now - startTimeRef s) * cap_playbackSpeed captured"

text \<open>
  For the examples: ten seconds of silence at 24000 Hz as \<open>decodeAudioData\<close> returns them, a
  player that has loaded them, and a decoder standing for \<open>atob\<close>.
\<close>

definition ten_seconds :: AudioBuffer where
  "ten_seconds = \<lparr>numberOfChannels = 1, frames = 240000, sampleRate = 24000,
     channelData = [replicate 240000 (Num 0)]\<rparr>"

definition silence_atob :: "jsstring \<Rightarrow> js_error + jsstring" where
  "silence_atob base64 = Inr (replicate 480000 0)"

definition loaded_player :: player where
  "loaded_player = initial_player\<lparr>base64Audio := Some (js ''AAAA''), audioContextRef := True,
     audioBufferRef := Some ten_seconds, reported := [0]\<rparr>"

text \<open>
  Runs of the loaded player. Play is pressed at time 0 and the first animation frame comes
  1/60 s later. \<open>ended_player\<close>: the source then plays to the end of the ten seconds.
  \<open>sped_up_player\<close>: play at half speed, the speed selector then set to 1.2 (the running
  source keeps its rate, so it is still sounding at time 10). \<open>seeking_player\<close>: a click at
  the left end of the progress bar at time 1, while playing. \<open>twice_sought_player\<close>: a frame at
  time 3/2 and a second such click at time 2.
\<close>

definition started_player :: player where
  "started_player = handleTogglePlay silence_atob 0 loaded_player"

definition playing_player :: player where
  "playing_player = animation_frame 2 (1 / 60) started_player"

definition ended_player :: player where
  "ended_player = source_ended 1 10 playing_player"

definition sped_up_player :: player where
  "sped_up_player =
     setPlaybackSpeed (6 / 5)
       (animation_frame 2 (1 / 60)
          (handleTogglePlay silence_atob 0 (setPlaybackSpeed (1 / 2) loaded_player)))"

definition seeking_player :: player where
  "seeking_player = handleProgressBarClick silence_atob 0 1 playing_player"

definition twice_sought_player :: player where
  "twice_sought_player =
     handleProgressBarClick silence_atob 0 2 (animation_frame 4 (3 / 2) seeking_player)"

text \<open>A scenario of three turns whose texts have 10, 20 and 10 characters, for the examples.\<close>

definition sample_turn :: "nat \<Rightarrow> DialogueTurn" where
  "sample_turn n = \<lparr>speaker = js ''Sam'', turn_text = replicate n 97, persianText = [],
     turn_role = js ''peer''\<rparr>"

definition sample_scenario :: Scenario where
  "sample_scenario = \<lparr>scenario_id = js ''k3x9q2m1z'', title = js ''Standup'', scenario_context = [],
     participants = [], dialogue = [sample_turn 10, sample_turn 20, sample_turn 10],
     vocabulary = []\<rparr>"

text \<open>
  A scenario of two turns with 1 and 6 characters, and the double \<open>(1 / 7) * 100\<close>, which is
  \<open>14.285714285714285\<close>: a progress value a click on the paused bar reports.
\<close>

definition short_scenario :: Scenario where
  "short_scenario = \<lparr>scenario_id = js ''p0w4c7e2x'', title = js ''Hello'', scenario_context = [],
     participants = [], dialogue = [sample_turn 1, sample_turn 6], vocabulary = []\<rparr>"

definition one_seventh_percent :: rat where
  "one_seventh_percent = 2010535547933257 / 140737488355328"

text \<open>
  A session that is \<open>READY\<close>: \<open>Begin Session\<close> from the initial state, both requests
  answered.
\<close>

definition ready_app :: app where
  "ready_app =
     startPractice_run (scenario initial_app) (isSlowMode initial_app) (Some True)
       (Inr sample_scenario) (Inr (js ''AAAA'')) initial_app"

section \<open>Properties of the PCM decoder\<close>

lemma unat_le16: "unat (le16 lo hi) = unat lo + 256 * unat hi"
proof -
  have "unat lo < 256" "unat hi < 256"
    using unsigned_less [of lo] unsigned_less [of hi] by simp_all
  then have "unat lo + 256 * unat hi < 65536" by arith
  then show ?thesis unfolding le16_def by (simp only: unat_of_nat) simp
qed

lemma signed_take_bit_15:
  fixes u :: int
  assumes "0 \<le> u" "u < 65536"
  shows "signed_take_bit 15 u = (if u < 32768 then u else u - 65536)"
proof -
  have "signed_take_bit 15 u = (u + 2 ^ 15) mod 2 ^ Suc 15 - 2 ^ 15"
    by (simp only: signed_take_bit_eq_take_bit_shift take_bit_eq_mod)
  also have "\<dots> = (u + 32768) mod 65536 - 32768" by simp
  also have "\<dots> = (if u < 32768 then u else u - 65536)"
  proof (cases "u < 32768")
    case True
    then have "(u + 32768) mod 65536 = u + 32768"
      using assms by (simp add: mod_pos_pos_trivial)
    then show ?thesis using True by simp
  next
    case False
    have "u + 32768 = u - 32768 + 65536" by arith
    then have "(u + 32768) mod 65536 = (u - 32768 + 65536) mod 65536" by (rule arg_cong)
    also have "\<dots> = (u - 32768) mod 65536" by (simp only: mod_add_self2)
    also have "\<dots> = u - 32768" using False assms by (simp add: mod_pos_pos_trivial)
    finally show ?thesis using False by simp
  qed
  finally show ?thesis .
qed

lemma sint_le16: "sint (le16 lo hi) = spec_s16le lo hi"
proof -
  define u where "u = int (unat lo) + 256 * int (unat hi)"
  have "unat lo < 256" "unat hi < 256"
    using unsigned_less [of lo] unsigned_less [of hi] by simp_all
  then have range: "0 \<le> u" "u < 65536" unfolding u_def by linarith+
  have "int (unat (le16 lo hi)) = u"
    unfolding u_def unat_le16 by (simp only: of_nat_add of_nat_mult of_nat_numeral)
  then have ui: "uint (le16 lo hi) = u" by simp
  have "sint (le16 lo hi) = signed_take_bit (LENGTH(16) - Suc 0) u"
    by (simp only: sint_uint ui)
  also have "\<dots> = signed_take_bit 15 u" by simp
  finally show ?thesis
    using signed_take_bit_15 [OF range] by (simp add: spec_s16le_def Let_def u_def)
qed

lemma spec_s16le_bounds: "- 32768 \<le> spec_s16le lo hi \<and> spec_s16le lo hi < 32768"
proof -
  define u where "u = int (unat lo) + 256 * int (unat hi)"
  have "unat lo < 256" "unat hi < 256"
    using unsigned_less [of lo] unsigned_less [of hi] by simp_all
  then have "0 \<le> u" "u < 65536" unfolding u_def by linarith+
  then have "- 32768 \<le> (if u < 32768 then u else u - 65536) \<and>
             (if u < 32768 then u else u - 65536) < 32768" by simp
  then show ?thesis unfolding spec_s16le_def Let_def u_def .
qed

lemma length_byte_pairs: "length (byte_pairs xs) = length xs div 2"
  by (induction xs rule: byte_pairs.induct) simp_all

lemma nth_byte_pairs:
  "k < length xs div 2 \<Longrightarrow> byte_pairs xs ! k = le16 (xs ! (2 * k)) (xs ! (2 * k + 1))"
proof (induction xs arbitrary: k rule: byte_pairs.induct)
  case (1 lo hi rest)
  then show ?case by (cases k) simp_all
qed simp_all

lemma fold_typed_array_set:
  "length (fold (\<lambda>i cd. typed_array_set cd i (f i)) [0 ..< m] cd0) = length cd0 \<and>
   (\<forall>j < length cd0. fold (\<lambda>i cd. typed_array_set cd i (f i)) [0 ..< m] cd0 ! j =
        (if j < m then f j else cd0 ! j))"
proof (induction m)
  case 0
  then show ?case by simp
next
  case (Suc m)
  then show ?case by (auto simp: typed_array_set_def nth_list_update less_Suc_eq)
qed

lemma fold_channels:
  "length (channelData b) = n \<Longrightarrow> c \<le> n \<Longrightarrow>
   (let r = fold (\<lambda>channel b. b\<lparr>channelData := (channelData b)[channel := g channel (channelData b ! channel)]\<rparr>) [0 ..< c] b
    in numberOfChannels r = numberOfChannels b \<and> frames r = frames b \<and> sampleRate r = sampleRate b \<and>
       length (channelData r) = n \<and>
       (\<forall>ch < n. channelData r ! ch = (if ch < c then g ch (channelData b ! ch) else channelData b ! ch)))"
proof (induction c)
  case 0
  then show ?case by simp
next
  case (Suc c)
  then show ?case by (auto simp: Let_def nth_list_update less_Suc_eq)
qed

lemma fill_channel_result:
  assumes "length cd0 = m" "m \<le> nat \<lceil>fc\<rceil>"
  shows "length (fill_channel d fc c ch cd0) = m \<and>
         (\<forall>i < m. fill_channel d fc c ch cd0 ! i = sample_at d (i * c + ch))"
  using fold_typed_array_set [of "\<lambda>i. sample_at d (i * c + ch)" "nat \<lceil>fc\<rceil>" cd0] assms
  unfolding fill_channel_def by auto

lemma frame_index_in_range:
  fixes n c :: nat
  assumes "i < n div c" "ch < c"
  shows "i * c + ch < n"
proof -
  have "i * c + ch < Suc i * c" using assms by simp
  also have "\<dots> \<le> (n div c) * c" using assms by (intro mult_le_mono1) simp
  also have "\<dots> \<le> n" by simp
  finally show ?thesis .
qed

lemma decodeAudioData_frames:
  assumes even: "even (length data)"
    and ch: "1 \<le> c" "c \<le> 32"
    and rate: "8000 \<le> rate" "rate \<le> 96000"
    and one: "1 \<le> length data div 2 div c"
    and ul: "length data div 2 div c < 2 ^ 32"
  shows "\<exists>buffer. decodeAudioData data rate c = Inr buffer \<and>
           numberOfChannels buffer = c \<and> sampleRate buffer = rate \<and>
           frames buffer = length data div 2 div c \<and>
           length (channelData buffer) = c \<and>
           (\<forall>ch < c. length (channelData buffer ! ch) = frames buffer \<and>
              (\<forall>i < frames buffer. channelData buffer ! ch ! i = Num (spec_sample data c i ch)))"
proof -
  define n where "n = length data div 2"
  define m where "m = n div c"
  define d where "d = byte_pairs data"
  define fc :: rat where "fc = of_nat (length d) / of_nat c"
  have len_d: "length d = n" by (simp add: d_def n_def length_byte_pairs)
  have view: "Int16Array data = Inr d" using even by (simp add: Int16Array_def d_def)
  have "\<lfloor>fc\<rfloor> = int m" unfolding fc_def len_d m_def by (simp add: floor_divide_of_nat_eq)
  then have fl: "nat \<lfloor>fc\<rfloor> = m" by simp
  have ulm: "unsigned_long fc = m" using ul fl by (simp add: unsigned_long_def m_def n_def)
  have ce: "m \<le> nat \<lceil>fc\<rceil>" using fl floor_le_ceiling [of fc] by linarith
  define b0 where "b0 = \<lparr>numberOfChannels = c, frames = m, sampleRate = rate,
                channelData = replicate c (replicate m (Num (0::rat)))\<rparr>"
  have cb: "createBuffer c (unsigned_long fc) rate = Inr b0"
    using ch rate one by (simp add: createBuffer_def ulm b0_def m_def n_def)
  define r where "r = fold (\<lambda>channel b. b\<lparr>channelData := (channelData b)
            [channel := fill_channel d fc c channel (channelData b ! channel)]\<rparr>) [0 ..< c] b0"
  have dec: "decodeAudioData data rate c = Inr r"
    using cb by (simp add: decodeAudioData_def view Let_def r_def fc_def)
  have fr: "numberOfChannels r = c \<and> frames r = m \<and> sampleRate r = rate \<and>
        length (channelData r) = c \<and>
        (\<forall>ch < c. channelData r ! ch = fill_channel d fc c ch (channelData b0 ! ch))"
    using fold_channels [of b0 c c "\<lambda>channel. fill_channel d fc c channel"]
    by (simp add: r_def Let_def b0_def)
  have "\<forall>ch < c. length (channelData r ! ch) = m \<and>
          (\<forall>i < m. channelData r ! ch ! i = Num (spec_sample data c i ch))"
  proof (intro allI impI)
    fix ch assume lt: "ch < c"
    have init: "length (channelData b0 ! ch) = m" using lt by (simp add: b0_def)
    from fill_channel_result [OF init ce, of d c ch]
    have fcr: "length (fill_channel d fc c ch (channelData b0 ! ch)) = m"
      "\<forall>i < m. fill_channel d fc c ch (channelData b0 ! ch) ! i = sample_at d (i * c + ch)"
      by simp_all
    have "\<forall>i < m. sample_at d (i * c + ch) = Num (spec_sample data c i ch)"
    proof (intro allI impI)
      fix i assume "i < m"
      then have k: "i * c + ch < n" using lt frame_index_in_range unfolding m_def by simp
      then have "d ! (i * c + ch) = le16 (data ! (2 * (i * c + ch))) (data ! (2 * (i * c + ch) + 1))"
        unfolding d_def n_def by (rule nth_byte_pairs)
      then show "sample_at d (i * c + ch) = Num (spec_sample data c i ch)"
        using k by (simp add: sample_at_def len_d sint_le16 spec_sample_def)
    qed
    with fcr fr lt show "length (channelData r ! ch) = m \<and>
          (\<forall>i < m. channelData r ! ch ! i = Num (spec_sample data c i ch))" by simp
  qed
  with dec fr show ?thesis unfolding m_def n_def by auto
qed

lemma spec_sample_range: "- 1 \<le> spec_sample data c i ch \<and> spec_sample data c i ch < 1"
proof -
  define v where "v = spec_s16le (data ! (2 * (i * c + ch))) (data ! (2 * (i * c + ch) + 1))"
  have "- 32768 \<le> v" "v < 32768" using spec_s16le_bounds unfolding v_def by simp_all
  then have "(of_int (- 32768) :: rat) \<le> of_int v" "(of_int v :: rat) < of_int 32768"
    by (simp_all only: of_int_le_iff of_int_less_iff)
  then have "- 32768 \<le> (of_int v :: rat)" "(of_int v :: rat) < 32768" by simp_all
  then show ?thesis unfolding spec_sample_def v_def [symmetric] by (simp add: field_simps)
qed

lemma whole_frames:
  fixes n c :: nat
  assumes "2 * c \<le> n" "1 \<le> c" "n < 2 ^ 33"
  shows "1 \<le> n div 2 div c" "n div 2 div c < 2 ^ 32"
proof -
  have "c \<le> n div 2" using assms(1) by simp
  then have "c div c \<le> n div 2 div c" by (rule div_le_mono)
  then show "1 \<le> n div 2 div c" using assms(2) by simp
  have "n div 2 div c \<le> n div 2" by (rule div_le_dividend)
  also have "n div 2 < 2 ^ 32" using assms(3) by simp
  finally show "n div 2 div c < 2 ^ 32" .
qed

lemmas decoder_defs = decodeAudioData_def Int16Array_def createBuffer_def unsigned_long_def
  fill_channel_def typed_array_set_def sample_at_def le16_def Let_def

lemma replicate_2: "replicate 2 x = [x, x]"
  by (simp add: numeral_2_eq_2)

lemma decode_two_samples:
  "decodeAudioData [0, 128, 255, 127] 24000 1 =
     Inr \<lparr>numberOfChannels = 1, frames = 2, sampleRate = 24000,
          channelData = [[Num (- 1), Num (32767 / 32768)]]\<rparr>"
  by (simp add: decoder_defs upt_conv_Cons replicate_2)

lemma decode_three_samples_two_channels:
  "decodeAudioData [1, 0, 2, 0, 3, 0] 24000 2 =
     Inr \<lparr>numberOfChannels = 2, frames = 1, sampleRate = 24000,
          channelData = [[Num (1 / 32768)], [Num (2 / 32768)]]\<rparr>"
proof -
  have "\<lfloor>3 / 2 :: rat\<rfloor> = 1" "\<lceil>3 / 2 :: rat\<rceil> = 2" by code_simp+
  then show ?thesis by (simp add: decoder_defs upt_conv_Cons replicate_2)
qed

lemma decode_less_than_a_frame:
  assumes "even (length data)" "length data < 2 * c"
  shows "decodeAudioData data rate c = Inl NotSupportedError"
proof -
  have "length (byte_pairs data) div c = 0" using assms by (simp add: length_byte_pairs)
  then have "\<lfloor>rat_of_nat (length (byte_pairs data)) / rat_of_nat c\<rfloor> = 0"
    by (simp add: floor_divide_of_nat_eq)
  then show ?thesis using assms(1)
    by (simp add: decodeAudioData_def Int16Array_def createBuffer_def unsigned_long_def)
qed

text \<open>
  Claim C1, as amended. For every byte stream of even length that holds at least one complete
  frame (\<open>2 * c \<le> byteLength\<close>) and fewer than \<open>2^32\<close> samples, with \<open>1 \<le> c \<le> 32\<close> channels
  and a sample rate the platform accepts, \<open>decodeAudioData\<close> returns a buffer whose frame count is the integer part of
  \<open>byteLength / 2 / c\<close> (the quotient itself when \<open>2 * c\<close> divides the length); sample \<open>i\<close> of
  channel \<open>ch\<close> is the little-endian signed 16-bit integer of byte pair \<open>i * c + ch\<close> divided by
  32768, and lies in \<open>[-1, 1]\<close>.
\<close>

theorem decodeAudioData_samples:
  assumes "even (length data)" and "1 \<le> c" and "c \<le> 32"
    and "8000 \<le> rate" and "rate \<le> 96000"
    and "2 * c \<le> length data" and "length data < 2 ^ 33"
  shows "\<exists>buffer. decodeAudioData data rate c = Inr buffer \<and>
           frames buffer = length data div 2 div c \<and>
           (2 * c dvd length data \<longrightarrow>
              rat_of_nat (frames buffer) = rat_of_nat (length data) / 2 / rat_of_nat c) \<and>
           (\<forall>ch < c. \<forall>i < frames buffer.
              channelData buffer ! ch ! i = Num (spec_sample data c i ch) \<and>
              - 1 \<le> spec_sample data c i ch \<and> spec_sample data c i ch \<le> 1)"
proof -
  note wf = whole_frames [OF assms(6) assms(2) assms(7)]
  from decodeAudioData_frames [OF assms(1-5) wf]
  obtain buffer where b: "decodeAudioData data rate c = Inr buffer"
    "frames buffer = length data div 2 div c"
    "\<forall>ch < c. \<forall>i < frames buffer. channelData buffer ! ch ! i = Num (spec_sample data c i ch)"
    by blast
  have exact: "rat_of_nat (length data div 2 div c) = rat_of_nat (length data) / 2 / rat_of_nat c"
    if "2 * c dvd length data"
  proof -
    from that obtain k where k: "length data = 2 * c * k" by (rule dvdE)
    then show ?thesis using assms(2) by simp
  qed
  have "- 1 \<le> spec_sample data c i ch \<and> spec_sample data c i ch \<le> 1" for i ch
    using spec_sample_range [of data c i ch] by simp
  with b exact show ?thesis by auto
qed

theorem decodeAudioData_samples_witness:
  "\<exists>buffer. decodeAudioData [0, 128, 255, 127] 24000 1 = Inr buffer \<and> frames buffer = 2 \<and>
     channelData buffer ! 0 ! 0 = Num (- 1) \<and> channelData buffer ! 0 ! 1 = Num (32767 / 32768)"
proof -
  let ?data = "[0, 128, 255, 127] :: byte list"
  have "\<exists>buffer. decodeAudioData ?data 24000 1 = Inr buffer \<and>
           frames buffer = length ?data div 2 div 1 \<and>
           (2 * 1 dvd length ?data \<longrightarrow>
              rat_of_nat (frames buffer) = rat_of_nat (length ?data) / 2 / rat_of_nat 1) \<and>
           (\<forall>ch < 1. \<forall>i < frames buffer.
              channelData buffer ! ch ! i = Num (spec_sample ?data 1 i ch) \<and>
              - 1 \<le> spec_sample ?data 1 i ch \<and> spec_sample ?data 1 i ch \<le> 1)"
    by (rule decodeAudioData_samples) simp_all
  then obtain buffer where b: "decodeAudioData ?data 24000 1 = Inr buffer" "frames buffer = 2"
    and s: "\<forall>i < frames buffer. channelData buffer ! 0 ! i = Num (spec_sample ?data 1 i 0)"
    by auto
  have "spec_sample ?data 1 0 0 = - 1" "spec_sample ?data 1 1 0 = 32767 / 32768"
    by (simp_all add: spec_sample_def spec_s16le_def)
  with b s show ?thesis by simp
qed

text \<open>
  Claim C1 as stated fails at two inputs of even length: the empty stream, which
  \<open>createBuffer\<close> rejects because a buffer of zero frames cannot be allocated, and a stream of
  three samples for two channels, where the buffer has one frame while \<open>byteLength / 2 / c\<close>
  is \<open>3 / 2\<close>.
\<close>

theorem decodeAudioData_even_length_counterexample:
  "even (length ([] :: byte list)) \<and> decodeAudioData [] 24000 1 = Inl NotSupportedError \<and>
   even (length ([1, 0, 2, 0, 3, 0] :: byte list)) \<and>
   map_sum id frames (decodeAudioData [1, 0, 2, 0, 3, 0] 24000 2) = Inr 1 \<and>
   rat_of_nat (length ([1, 0, 2, 0, 3, 0] :: byte list)) / 2 / 2 \<noteq> 1"
  by (simp add: decode_less_than_a_frame decode_three_samples_two_channels)

text \<open>
  Claim C5, as amended. A byte sequence of odd length is rejected with a hard error (the
  \<open>RangeError\<close> of the 16-bit view), and so is one of even length shorter than a frame
  (\<open>NotSupportedError\<close>). A sequence of even length that holds at least one complete frame
  but is not a multiple of \<open>2 * channels\<close> is decoded (for 1 to 32 channels, a sample rate the
  platform accepts and fewer than \<open>2^32\<close> samples): the buffer has the integer part of
  \<open>byteLength / 2 / channels\<close> frames and the samples of the final partial frame are dropped.
\<close>

theorem decodeAudioData_malformed_length:
  "(odd (length data) \<longrightarrow> decodeAudioData data rate c = Inl RangeError) \<and>
   (even (length data) \<and> length data < 2 * c \<longrightarrow>
      decodeAudioData data rate c = Inl NotSupportedError) \<and>
   (even (length data) \<and> \<not> 2 * c dvd length data \<and> 2 * c \<le> length data \<and>
    1 \<le> c \<and> c \<le> 32 \<and> 8000 \<le> rate \<and> rate \<le> 96000 \<and> length data < 2 ^ 33 \<longrightarrow>
      (\<exists>buffer. decodeAudioData data rate c = Inr buffer \<and>
         frames buffer = length data div 2 div c \<and>
         frames buffer * c < length data div 2))"
proof (intro conjI impI)
  assume "odd (length data)"
  then show "decodeAudioData data rate c = Inl RangeError"
    by (simp add: decodeAudioData_def Int16Array_def odd_iff_mod_2_eq_one)
next
  assume "even (length data) \<and> length data < 2 * c"
  then show "decodeAudioData data rate c = Inl NotSupportedError"
    by (simp add: decode_less_than_a_frame)
next
  assume a: "even (length data) \<and> \<not> 2 * c dvd length data \<and> 2 * c \<le> length data \<and>
    1 \<le> c \<and> c \<le> 32 \<and> 8000 \<le> rate \<and> rate \<le> 96000 \<and> length data < 2 ^ 33"
  then have wf: "1 \<le> length data div 2 div c" "length data div 2 div c < 2 ^ 32"
    using whole_frames [of c "length data"] by simp_all
  from a wf decodeAudioData_frames [of data c rate]
  obtain buffer where b: "decodeAudioData data rate c = Inr buffer"
    "frames buffer = length data div 2 div c"
    by blast
  have "\<not> c dvd length data div 2"
  proof
    assume "c dvd length data div 2"
    then have "2 * c dvd 2 * (length data div 2)" by simp
    then show False using a by simp
  qed
  then have "length data div 2 div c * c \<noteq> length data div 2" by (metis dvd_triv_right)
  moreover have "length data div 2 div c * c \<le> length data div 2" by simp
  ultimately have "length data div 2 div c * c < length data div 2" by linarith
  with b show "\<exists>buffer. decodeAudioData data rate c = Inr buffer \<and>
         frames buffer = length data div 2 div c \<and> frames buffer * c < length data div 2"
    by auto
qed

theorem decodeAudioData_malformed_length_witness:
  "decodeAudioData [1, 0, 2, 0, 3] 24000 2 = Inl RangeError \<and>
   decodeAudioData [1, 0] 24000 2 = Inl NotSupportedError \<and>
   (\<exists>buffer. decodeAudioData [1, 0, 2, 0, 3, 0] 24000 2 = Inr buffer \<and> frames buffer = 1)"
proof -
  have six: "length ([1, 0, 2, 0, 3, 0] :: byte list) = 6" by simp
  have "\<not> 2 * 2 dvd (6 :: nat)" by simp
  with six decodeAudioData_malformed_length [of "[1, 0, 2, 0, 3, 0]" 24000 2]
  have "\<exists>buffer. decodeAudioData [1, 0, 2, 0, 3, 0] 24000 2 = Inr buffer \<and> frames buffer = 1"
    by (auto simp del: list.size)
  then show ?thesis
    using decodeAudioData_malformed_length [of "[1, 0, 2, 0, 3]" 24000 2]
      decodeAudioData_malformed_length [of "[1, 0]" 24000 2]
    by simp
qed

text \<open>
  Claim C5 as stated fails: six bytes are not a multiple of \<open>2 * 2\<close>, and decoding them for two
  channels returns a buffer of one frame, the third sample dropped.
\<close>

theorem decodeAudioData_truncates_counterexample:
  "\<not> 2 * 2 dvd length ([1, 0, 2, 0, 3, 0] :: byte list) \<and>
   decodeAudioData [1, 0, 2, 0, 3, 0] 24000 2 =
     Inr \<lparr>numberOfChannels = 2, frames = 1, sampleRate = 24000,
          channelData = [[Num (1 / 32768)], [Num (2 / 32768)]]\<rparr>"
proof -
  have "length ([1, 0, 2, 0, 3, 0] :: byte list) = 6" by simp
  moreover have "\<not> 2 * 2 dvd (6 :: nat)" by simp
  ultimately show ?thesis by (simp add: decode_three_samples_two_channels del: list.size)
qed

section \<open>Properties of the turn synchronizer\<close>

subsection \<open>Some doubles\<close>

lemma round_to_double_0: "round_to_double 0 = 0"
  by (simp add: round_to_double_def)

lemma round_to_double_1: "round_to_double 1 = 1"
  by code_simp

lemma round_to_double_quarters:
  "round_to_double (1 / 4) = 1 / 4" "round_to_double (3 / 4) = 3 / 4"
  by code_simp+

lemma round_to_double_3_10: "round_to_double (3 / 10) = 5404319552844595 / 18014398509481984"
  by code_simp

lemma round_to_double_4_5: "round_to_double (4 / 5) = 3602879701896397 / 4503599627370496"
  by code_simp

lemma round_to_double_1_7: "round_to_double (1 / 7) = 2573485501354569 / 18014398509481984"
  by code_simp

lemma round_to_double_one_seventh_percent:
  "round_to_double (one_seventh_percent / 100) = 2573485501354569 / 18014398509481984"
  unfolding one_seventh_percent_def by code_simp

lemma round_to_double_fixed:
  "round_to_double 30 = 30" "round_to_double 80 = 80"
  "round_to_double one_seventh_percent = one_seventh_percent"
  "round_to_double (3504363460047667 / 35184372088832) = 3504363460047667 / 35184372088832"
  unfolding one_seventh_percent_def by code_simp+

text \<open>The last one is the double that the literal \<open>99.6\<close> denotes.\<close>

lemma is_double_examples:
  "is_double 0" "is_double 30" "is_double 80" "is_double one_seventh_percent"
  "is_double (3504363460047667 / 35184372088832)"
  by (simp_all add: is_double_def round_to_double_0 round_to_double_fixed)
     (simp add: one_seventh_percent_def)

lemma js_div_0: "b \<noteq> 0 \<Longrightarrow> js_div 0 b = Num 0"
  by (simp add: js_div_def round_to_double_0)

lemma js_div_self: "b \<noteq> 0 \<Longrightarrow> js_div b b = Num 1"
  by (simp add: js_div_def round_to_double_1)

lemma js_div_not_NaN: "b \<noteq> 0 \<Longrightarrow> js_div a b \<noteq> NaN"
  by (simp add: js_div_def Let_def)

subsection \<open>The loop returns the first turn whose rounded range holds the ratio\<close>

lemma foldl_totalChars:
  "foldl (\<lambda>acc turn. acc + length (turn_text turn)) a turns =
     a + sum_list (map (\<lambda>turn. length (turn_text turn)) turns)"
  by (induction turns arbitrary: a) simp_all

lemma turn_loop_find:
  "turn_loop rest (length pre) (sum_list (map (\<lambda>turn. length (turn_text turn)) pre))
      (sum_list (map (\<lambda>turn. length (turn_text turn)) (pre @ rest))) r =
   (case find (\<lambda>i. rounded_owns (pre @ rest) i r) [length pre ..< length (pre @ rest)] of
      None \<Rightarrow> - 1 | Some i \<Rightarrow> int i)"
proof (induction rest arbitrary: pre)
  case Nil
  then show ?case by simp
next
  case (Cons turn rest)
  let ?len = "\<lambda>turn. length (turn_text turn)"
  let ?turns = "pre @ turn # rest"
  have own: "rounded_owns ?turns (length pre) r \<longleftrightarrow>
      js_ge r (js_div (sum_list (map ?len pre)) (sum_list (map ?len ?turns))) \<and>
      js_lt r (js_div (sum_list (map ?len pre) + ?len turn) (sum_list (map ?len ?turns)))"
  proof -
    have cb: "spec_chars_before ?turns (length pre) = sum_list (map ?len pre)"
      by (simp add: spec_chars_before_def)
    have nth: "?turns ! length pre = turn" by simp
    show ?thesis unfolding rounded_owns_def Let_def cb nth ..
  qed
  have upt: "[length pre ..< length ?turns] = length pre # [Suc (length pre) ..< length ?turns]"
    by (rule upt_conv_Cons) simp
  from Cons.IH [of "pre @ [turn]"]
  have ih: "turn_loop rest (Suc (length pre)) (sum_list (map ?len pre) + ?len turn)
      (sum_list (map ?len ?turns)) r =
    (case find (\<lambda>i. rounded_owns ?turns i r) [Suc (length pre) ..< length ?turns] of
      None \<Rightarrow> - 1 | Some i \<Rightarrow> int i)"
    by simp
  show ?case
    unfolding upt
    by (simp only: turn_loop.simps Let_def own [symmetric] ih find.simps split: if_splits) simp
qed

lemma activeTurnIndex_first_owner:
  assumes "p \<noteq> 0" "p < 199 / 2"
  shows "activeTurnIndex (Some sc) p =
           first_rounded_owner (dialogue sc) (round_to_double (p / 100))"
  using assms turn_loop_find [of "dialogue sc" "[]" "round_to_double (p / 100)"]
  by (simp add: activeTurnIndex_def first_rounded_owner_def foldl_totalChars Let_def)

lemma first_rounded_owner_index:
  assumes "i < length turns" "rounded_owns turns i r" "\<forall>j < i. \<not> rounded_owns turns j r"
  shows "first_rounded_owner turns r = int i"
proof -
  have "find (\<lambda>i. rounded_owns turns i r) [0 ..< length turns] = Some i"
    unfolding find_Some_iff using assms by (intro exI [of _ i]) simp
  then show ?thesis by (simp add: first_rounded_owner_def)
qed

lemma first_rounded_owner_none:
  assumes "\<forall>i < length turns. \<not> rounded_owns turns i r"
  shows "first_rounded_owner turns r = - 1"
proof -
  have "find (\<lambda>i. rounded_owns turns i r) [0 ..< length turns] = None"
    unfolding find_None_iff using assms by simp
  then show ?thesis by (simp add: first_rounded_owner_def)
qed

lemma spec_chars_before_Suc:
  "i < length turns \<Longrightarrow>
     spec_chars_before turns (Suc i) = spec_chars_before turns i + length (turn_text (turns ! i))"
  by (simp add: spec_chars_before_def take_Suc_conv_app_nth)

text \<open>The rounded ranges still tile \<open>[0, 1)\<close>: a ratio in it is owned by some turn.\<close>

lemma some_turn_owns:
  assumes tot: "0 < sum_list (map (\<lambda>turn. length (turn_text turn)) turns)"
    and r: "0 \<le> r" "r < 1"
  shows "\<exists>i < length turns. rounded_owns turns i r"
proof -
  define tot where "tot = sum_list (map (\<lambda>turn. length (turn_text turn)) turns)"
  define cb where "cb = spec_chars_before turns"
  let ?P = "\<lambda>n. js_lt r (js_div (cb n) tot)"
  have "0 < tot" using tot unfolding tot_def .
  then have pos: "tot \<noteq> 0" by simp
  have "cb (length turns) = tot" by (simp add: cb_def tot_def spec_chars_before_def)
  then have last: "?P (length turns)" using pos r by (simp add: js_div_self js_lt_def)
  define n where "n = (LEAST n. ?P n)"
  have Pn: "?P n" unfolding n_def using last by (rule LeastI)
  have n_le: "n \<le> length turns" unfolding n_def using last by (rule Least_le)
  have "cb 0 = 0" by (simp add: cb_def spec_chars_before_def)
  then have "\<not> ?P 0" using r pos by (simp add: js_div_0 js_lt_def)
  with Pn have "n \<noteq> 0" by metis
  then obtain i where i: "n = Suc i" by (cases n) simp_all
  have "i < (LEAST n. ?P n)" using i n_def by simp
  then have notP: "\<not> ?P i" by (rule not_less_Least)
  have lt: "i < length turns" using n_le i by simp
  then have suc: "cb (Suc i) = cb i + length (turn_text (turns ! i))"
    unfolding cb_def by (rule spec_chars_before_Suc)
  have ge: "js_ge r (js_div (cb i) tot)"
    using notP js_div_not_NaN [OF pos, of "cb i"]
    by (cases "js_div (cb i) tot") (simp_all add: js_lt_def js_ge_def)
  have "js_ge r (js_div (cb i) tot) \<and>
        js_lt r (js_div (cb i + length (turn_text (turns ! i))) tot)"
    using Pn ge unfolding i suc by simp
  then have "rounded_owns turns i r"
    unfolding rounded_owns_def Let_def tot_def cb_def .
  with lt show ?thesis by blast
qed

lemma first_turn_owns:
  assumes "0 < sum_list (map (\<lambda>turn. length (turn_text turn)) turns)" and "0 \<le> r" and "r < 1"
  shows "\<exists>i < length turns. rounded_owns turns i r \<and> (\<forall>j < i. \<not> rounded_owns turns j r)"
proof -
  let ?P = "\<lambda>i. i < length turns \<and> rounded_owns turns i r"
  from some_turn_owns [OF assms] have ex: "\<exists>i. ?P i" by blast
  define i where "i = (LEAST i. ?P i)"
  have "?P i" unfolding i_def using ex by (rule LeastI_ex)
  moreover have "\<not> rounded_owns turns j r" if "j < i" for j
  proof -
    from that have "j < (LEAST i. ?P i)" unfolding i_def .
    then have "\<not> ?P j" by (rule not_less_Least)
    moreover have "j < length turns" using that \<open>?P i\<close> by simp
    ultimately show ?thesis by simp
  qed
  ultimately show ?thesis by blast
qed

lemma activeTurnIndex_10_20_10:
  assumes "map (\<lambda>turn. length (turn_text turn)) (dialogue sc) = [10, 20, 10]"
  shows "activeTurnIndex (Some sc) 30 = 1"
proof -
  from assms obtain t1 t2 t3 where d: "dialogue sc = [t1, t2, t3]"
    and l: "length (turn_text t1) = 10" "length (turn_text t2) = 20" "length (turn_text t3) = 10"
    by (auto simp: map_eq_Cons_conv)
  show ?thesis
    by (simp add: activeTurnIndex_def d l Let_def js_ge_def js_lt_def js_div_def
        round_to_double_0 round_to_double_quarters round_to_double_3_10)
qed

text \<open>
  Claim C4, as amended. For a scenario with a non-empty dialogue (its texts shorter than
  \<open>2^53\<close> characters in all) and a progress percentage \<open>p\<close>, a double: when \<open>p = 0\<close> or
  \<open>p \<ge> 99.5\<close> the turn synchronizer returns \<open>-1\<close>; otherwise it returns the first index \<open>i\<close>
  whose sub-range contains the ratio when the three quotients \<open>p / 100\<close>,
  \<open>c\<^sub>i / totalChars\<close> and \<open>(c\<^sub>i + L\<^sub>i) / totalChars\<close> are each rounded to the nearest double
  (\<open>-1\<close> when no turn owns it; some turn does when the rounded ratio lies in \<open>[0, 1)\<close> and the
  texts are not all empty); for text lengths 10, 20, 10 and \<open>p = 30\<close> the index is 1.
\<close>

theorem activeTurnIndex_first_turn_in_range:
  assumes "dialogue sc \<noteq> []"
    and "sum_list (map (\<lambda>turn. length (turn_text turn)) (dialogue sc)) < 2 ^ 53"
    and "is_double p"
  shows "(p = 0 \<or> 199 / 2 \<le> p \<longrightarrow> activeTurnIndex (Some sc) p = - 1) \<and>
         (p \<noteq> 0 \<and> p < 199 / 2 \<longrightarrow>
            (\<forall>i < length (dialogue sc).
               rounded_owns (dialogue sc) i (round_to_double (p / 100)) \<and>
               (\<forall>j < i. \<not> rounded_owns (dialogue sc) j (round_to_double (p / 100))) \<longrightarrow>
               activeTurnIndex (Some sc) p = int i) \<and>
            ((\<forall>i < length (dialogue sc).
                \<not> rounded_owns (dialogue sc) i (round_to_double (p / 100))) \<longrightarrow>
               activeTurnIndex (Some sc) p = - 1)) \<and>
         (p \<noteq> 0 \<and> p < 199 / 2 \<and>
          0 \<le> round_to_double (p / 100) \<and> round_to_double (p / 100) < 1 \<and>
          0 < sum_list (map (\<lambda>turn. length (turn_text turn)) (dialogue sc)) \<longrightarrow>
            (\<exists>i < length (dialogue sc). activeTurnIndex (Some sc) p = int i \<and>
               rounded_owns (dialogue sc) i (round_to_double (p / 100)) \<and>
               (\<forall>j < i. \<not> rounded_owns (dialogue sc) j (round_to_double (p / 100))))) \<and>
         (map (\<lambda>turn. length (turn_text turn)) (dialogue sc) = [10, 20, 10] \<longrightarrow>
            activeTurnIndex (Some sc) 30 = 1)"
proof (intro conjI impI allI)
  assume "p = 0 \<or> 199 / 2 \<le> p"
  then show "activeTurnIndex (Some sc) p = - 1" by (auto simp: activeTurnIndex_def)
next
  fix i
  assume "p \<noteq> 0 \<and> p < 199 / 2" "i < length (dialogue sc)"
    "rounded_owns (dialogue sc) i (round_to_double (p / 100)) \<and>
     (\<forall>j < i. \<not> rounded_owns (dialogue sc) j (round_to_double (p / 100)))"
  then show "activeTurnIndex (Some sc) p = int i"
    by (simp add: activeTurnIndex_first_owner first_rounded_owner_index)
next
  assume "p \<noteq> 0 \<and> p < 199 / 2"
    "\<forall>i < length (dialogue sc). \<not> rounded_owns (dialogue sc) i (round_to_double (p / 100))"
  then show "activeTurnIndex (Some sc) p = - 1"
    by (simp add: activeTurnIndex_first_owner first_rounded_owner_none)
next
  assume a: "p \<noteq> 0 \<and> p < 199 / 2 \<and>
    0 \<le> round_to_double (p / 100) \<and> round_to_double (p / 100) < 1 \<and>
    0 < sum_list (map (\<lambda>turn. length (turn_text turn)) (dialogue sc))"
  then have "0 < sum_list (map (\<lambda>turn. length (turn_text turn)) (dialogue sc))"
    and "0 \<le> round_to_double (p / 100)" and "round_to_double (p / 100) < 1"
    by simp_all
  from first_turn_owns [OF this]
  obtain i where i: "i < length (dialogue sc)"
    "rounded_owns (dialogue sc) i (round_to_double (p / 100))"
    "\<forall>j < i. \<not> rounded_owns (dialogue sc) j (round_to_double (p / 100))"
    by blast
  then have "activeTurnIndex (Some sc) p = int i"
    using a by (simp add: activeTurnIndex_first_owner first_rounded_owner_index)
  with i show "\<exists>i < length (dialogue sc). activeTurnIndex (Some sc) p = int i \<and>
      rounded_owns (dialogue sc) i (round_to_double (p / 100)) \<and>
      (\<forall>j < i. \<not> rounded_owns (dialogue sc) j (round_to_double (p / 100)))"
    by blast
next
  assume "map (\<lambda>turn. length (turn_text turn)) (dialogue sc) = [10, 20, 10]"
  then show "activeTurnIndex (Some sc) 30 = 1" by (rule activeTurnIndex_10_20_10)
qed

lemma sample_dialogue: "dialogue sample_scenario = [sample_turn 10, sample_turn 20, sample_turn 10]"
  by (simp add: sample_scenario_def)

lemma sample_lengths: "map (\<lambda>turn. length (turn_text turn)) (dialogue sample_scenario) = [10, 20, 10]"
  by (simp add: sample_scenario_def sample_turn_def)

lemmas owns_simps = rounded_owns_def spec_owns_def spec_chars_before_def sample_turn_def
  js_ge_def js_lt_def js_div_def Let_def

theorem activeTurnIndex_first_turn_in_range_witness:
  "activeTurnIndex (Some sample_scenario) 0 = - 1 \<and>
   activeTurnIndex (Some sample_scenario) 30 = 1 \<and>
   activeTurnIndex (Some sample_scenario) 80 = 2 \<and>
   activeTurnIndex (Some sample_scenario) (3504363460047667 / 35184372088832) = - 1"
proof -
  let ?d = "dialogue sample_scenario"
  have ne: "?d \<noteq> []" by (simp add: sample_dialogue)
  have small: "sum_list (map (\<lambda>turn. length (turn_text turn)) ?d) < 2 ^ 53"
    by (simp add: sample_lengths)
  have r: "round_to_double (80 / 100) = 3602879701896397 / 4503599627370496"
    using round_to_double_4_5 by simp
  have own: "rounded_owns ?d 2 (round_to_double (80 / 100))"
    "\<not> rounded_owns ?d 1 (round_to_double (80 / 100))"
    "\<not> rounded_owns ?d 0 (round_to_double (80 / 100))"
    unfolding r
    by (simp_all add: owns_simps sample_dialogue round_to_double_0 round_to_double_1
        round_to_double_quarters)
  have "\<forall>j < 2. \<not> rounded_owns ?d j (round_to_double (80 / 100))"
    using own by (simp add: less_Suc_eq numeral_2_eq_2)
  moreover have "(2::nat) < length ?d" by (simp add: sample_dialogue)
  moreover have "(80::rat) \<noteq> 0 \<and> (80::rat) < 199 / 2" by simp
  ultimately have "activeTurnIndex (Some sample_scenario) 80 = int 2"
    using activeTurnIndex_first_turn_in_range [OF ne small is_double_examples(3)] own(1)
    by blast
  then show ?thesis
    using activeTurnIndex_first_turn_in_range [OF ne small is_double_examples(1)]
      activeTurnIndex_first_turn_in_range [OF ne small is_double_examples(2)]
      activeTurnIndex_first_turn_in_range [OF ne small is_double_examples(5)] sample_lengths
    by simp
qed

text \<open>
  Claim C4 as stated fails where the rounding moves the ratio across a bound. For texts of 1
  and 6 characters the first turn owns \<open>[0, 1/7)\<close>. The progress \<open>(1 / 7) * 100\<close>, a double,
  gives an exact ratio below \<open>1/7\<close>, inside that range; the program's quotient \<open>p / 100\<close>
  rounds to the same double as its bound \<open>1 / 7\<close>, so the first turn is passed over and the
  index returned is 1.
\<close>

theorem activeTurnIndex_rounding_counterexample:
  "dialogue short_scenario \<noteq> [] \<and> is_double one_seventh_percent \<and>
   one_seventh_percent \<noteq> 0 \<and> one_seventh_percent < 199 / 2 \<and>
   spec_owns (dialogue short_scenario) 0 (one_seventh_percent / 100) \<and>
   activeTurnIndex (Some short_scenario) one_seventh_percent = 1"
proof -
  have d: "dialogue short_scenario = [sample_turn 1, sample_turn 6]"
    by (simp add: short_scenario_def)
  have "spec_owns (dialogue short_scenario) 0 (one_seventh_percent / 100)"
    by (simp add: d owns_simps one_seventh_percent_def)
  moreover have p: "one_seventh_percent \<noteq> 0" "one_seventh_percent < 199 / 2"
    by (simp_all add: one_seventh_percent_def)
  moreover have "activeTurnIndex (Some short_scenario) one_seventh_percent = 1"
    using p
    by (simp add: activeTurnIndex_def d sample_turn_def Let_def js_ge_def js_lt_def js_div_def
        round_to_double_one_seventh_percent round_to_double_0 round_to_double_1
        round_to_double_1_7 not_le)
  ultimately show ?thesis using is_double_examples(4) by (simp add: d)
qed

section \<open>Properties of the session controller\<close>

lemmas session_defs = startPractice_run_def startPractice_def startPractice_scenario_def
  startPractice_audio_def startPractice_catch_def useSlow_of_def Let_def


text \<open>
  Each run is the click of its trigger followed by the continuations of the call.
\<close>

lemma begin_session_run_click:
  "status s = IDLE \<Longrightarrow> scenario s = None \<Longrightarrow>
   begin_session_run (Inl e) audio_outcome s =
     startPractice_scenario True (Inl e) (click_begin_session s) \<and>
   begin_session_run (Inr newScenario) audio_outcome s =
     startPractice_audio audio_outcome
       (startPractice_scenario True (Inr newScenario) (click_begin_session s))"
  by (simp add: begin_session_run_def click_begin_session_def startPractice_run_def
      useSlow_of_def Let_def)

lemma generate_run_click:
  "status s \<noteq> GENERATING_TEXT \<Longrightarrow> status s \<noteq> GENERATING_AUDIO \<Longrightarrow>
   (scenario s = None \<longrightarrow>
      generate_run (Inl e) audio_outcome s =
        startPractice_scenario (isSlowMode s) (Inl e) (click_generate s) \<and>
      generate_run (Inr newScenario) audio_outcome s =
        startPractice_audio audio_outcome
          (startPractice_scenario (isSlowMode s) (Inr newScenario) (click_generate s))) \<and>
   (scenario s \<noteq> None \<longrightarrow>
      generate_run scenario_outcome audio_outcome s =
        startPractice_audio audio_outcome (click_generate s))"
  by (auto simp: generate_run_def click_generate_def startPractice_run_def useSlow_of_def Let_def)




text \<open>
  While the status is \<open>GENERATING_TEXT\<close> or \<open>GENERATING_AUDIO\<close>, the two buttons of the page
  header and hero do nothing.
\<close>

lemma generate_disabled_while_generating:
  assumes "status s = GENERATING_TEXT \<or> status s = GENERATING_AUDIO"
  shows "click_generate s = s" and "click_begin_session s = s"
  using assms by (auto simp: click_generate_def click_begin_session_def)

text \<open>The slow-mode button starts an audio generation whatever the status.\<close>

lemma slow_mode_not_guarded:
  assumes "scenario s = Some sc"
  shows "requests (click_slow_mode s) = requests s @ [GenerateAudio sc (\<not> isSlowMode s)]"
    and "status (click_slow_mode s) = GENERATING_AUDIO"
  using assms
  by (simp_all add: click_slow_mode_def toggleSlowMode_def startPractice_def useSlow_of_def Let_def)

text \<open>
  Claim C7 fails on the code at the slow-mode button. From the \<open>READY\<close> session one click
  starts an audio generation; a second click while the status is \<open>GENERATING_AUDIO\<close> is not
  rejected: the state changes and a second audio request is issued while the first is
  unanswered.
\<close>

theorem slow_mode_click_while_generating:
  "status (click_slow_mode ready_app) = GENERATING_AUDIO \<and>
   scenario (click_slow_mode ready_app) = Some sample_scenario \<and>
   requests (click_slow_mode ready_app) = requests ready_app @ [GenerateAudio sample_scenario True] \<and>
   click_slow_mode (click_slow_mode ready_app) \<noteq> click_slow_mode ready_app \<and>
   status (click_slow_mode (click_slow_mode ready_app)) = GENERATING_AUDIO \<and>
   requests (click_slow_mode (click_slow_mode ready_app)) =
     requests ready_app @
       [GenerateAudio sample_scenario True, GenerateAudio sample_scenario False]"
  by (simp add: click_slow_mode_def toggleSlowMode_def session_defs ready_app_def initial_app_def)

text \<open>A word is empty after the stripping exactly when it consists of punctuation only.\<close>

lemma cleanWord_of_empty_iff: "cleanWord_of word = [] \<longleftrightarrow> set word \<subseteq> set punctuation"
  by (auto simp: cleanWord_of_def filter_empty_conv)

text \<open>
  Claim C10. A clicked word that is empty after the punctuation is stripped makes
  \<open>handleWordClick\<close> return at once: no request is issued and the whole state, the custom
  vocabulary and the lookup flag included, is unchanged.
\<close>

theorem handleWordClick_nothing_to_look_up:
  assumes "cleanWord_of word = []"
  shows "handleWordClick word context s = s \<and>
         requests (handleWordClick word context s) = requests s \<and>
         customVocab (handleWordClick word context s) = customVocab s \<and>
         isLookingUp (handleWordClick word context s) = isLookingUp s"
  using assms by (simp add: handleWordClick_def)

lemma cleanWord_of_dots: "cleanWord_of (js ''...'') = []"
  by (simp add: cleanWord_of_def punctuation_def js_def)

lemma cleanWord_of_example: "cleanWord_of (js ''(well,'') = js ''well''"
  by (simp add: cleanWord_of_def punctuation_def js_def)

theorem handleWordClick_nothing_to_look_up_witness:
  "cleanWord_of (js ''...'') = [] \<and>
   handleWordClick (js ''...'') (js ''Well...'') ready_app = ready_app \<and>
   requests (handleWordClick (js ''...'') (js ''Well...'') ready_app) = requests ready_app"
  using handleWordClick_nothing_to_look_up [of "js ''...''" "js ''Well...''" ready_app]
    cleanWord_of_dots
  by simp

section \<open>Properties of the playback engine\<close>

lemmas player_defs = handleTogglePlay_def playFromOffset_def stopAudio_def updateProgress_def
  animation_frame_def onended_def source_ended_def handleProgressBarClick_def handleSkip_def
  setPlaybackSpeed_def reset_for_new_audio_def base64Audio_effect_def loadAudio_def
  truthy_def without_def spec_true_position_def Let_def

lemma map_of_without: "map_of (without h xs) h = None"
  by (induction xs) (auto simp: without_def)

subsection \<open>The example runs\<close>

lemma duration_ten_seconds: "duration ten_seconds = 10"
  by (simp add: duration_def ten_seconds_def)

lemma js_AAAA: "js ''AAAA'' \<noteq> []"
  by (simp add: js_def)

text \<open>The ten seconds of silence are what the decoder returns for 480000 zero bytes.\<close>

lemma decode_silence: "decodeAudioData (replicate 480000 0) 24000 1 = Inr ten_seconds"
proof -
  let ?data = "replicate 480000 0 :: byte list"
  have len: "length ?data = 480000" by simp
  have "\<exists>buffer. decodeAudioData ?data 24000 1 = Inr buffer \<and>
           numberOfChannels buffer = 1 \<and> sampleRate buffer = 24000 \<and>
           frames buffer = length ?data div 2 div 1 \<and>
           length (channelData buffer) = 1 \<and>
           (\<forall>ch < 1. length (channelData buffer ! ch) = frames buffer \<and>
              (\<forall>i < frames buffer. channelData buffer ! ch ! i = Num (spec_sample ?data 1 i ch)))"
    by (rule decodeAudioData_frames) (simp_all only: len, simp_all)
  then obtain buffer where b: "decodeAudioData ?data 24000 1 = Inr buffer"
    "numberOfChannels buffer = 1" "sampleRate buffer = 24000" "frames buffer = 240000"
    "length (channelData buffer) = 1" "length (channelData buffer ! 0) = 240000"
    and s: "\<forall>i < 240000. channelData buffer ! 0 ! i = Num (spec_sample ?data 1 i 0)"
    unfolding len by auto
  have "spec_sample ?data 1 i 0 = 0" if "i < 240000" for i
    using that by (simp add: spec_sample_def spec_s16le_def)
  with s have "\<forall>i < 240000. channelData buffer ! 0 ! i = Num 0" by simp
  with b(6) have "channelData buffer ! 0 = replicate 240000 (Num 0)"
    by (simp add: list_eq_iff_nth_eq)
  with b(5) have "channelData buffer = [replicate 240000 (Num 0)]"
    by (cases "channelData buffer") simp_all
  with b show ?thesis by (cases buffer) (simp add: ten_seconds_def)
qed

text \<open>The loaded player is the mounted component after the effect has loaded that audio.\<close>

lemma loaded_player_reached:
  "base64Audio_effect silence_atob (Some (js ''AAAA'')) initial_player = loaded_player"
  using decode_silence
  by (simp add: base64Audio_effect_def reset_for_new_audio_def stopAudio_def loadAudio_def
      decodeBase64_def silence_atob_def truthy_def js_def Let_def
      initial_player_def loaded_player_def)

lemmas run_simps = player_defs loaded_player_def initial_player_def duration_ten_seconds js_AAAA

lemma started_player:
  "started_player = loaded_player\<lparr>isPlaying := True, sourceNodeRef := Some 1,
     animationFrameRef := Some 2, next_handle := 3,
     started := [(1, \<lparr>cap_isPlaying = False, cap_playbackSpeed = 1, cap_duration = 10\<rparr>, 0)],
     frames_pending := [(2, \<lparr>cap_isPlaying = False, cap_playbackSpeed = 1, cap_duration = 10\<rparr>)]\<rparr>"
  by (simp add: started_player_def run_simps)

text \<open>
  The reporter that \<open>handleTogglePlay\<close> starts has captured \<open>isPlaying = false\<close>: its first
  frame reports nothing and requests no further frame, although the player is playing.
\<close>

lemma playing_player: "playing_player = started_player\<lparr>frames_pending := []\<rparr>"
  by (simp add: playing_player_def started_player run_simps)

lemma ended_player:
  "ended_player = playing_player\<lparr>isPlaying := False, progress := 100, reported := [0, 100],
     started := []\<rparr>"
  by (simp add: ended_player_def playing_player started_player run_simps)

lemma sped_up_player:
  "sped_up_player = loaded_player\<lparr>isPlaying := True, playbackSpeed := 6 / 5,
     sourceNodeRef := Some 1, animationFrameRef := Some 2, next_handle := 3,
     started := [(1, \<lparr>cap_isPlaying = False, cap_playbackSpeed = 1 / 2, cap_duration = 10\<rparr>, 0)]\<rparr>"
  by (simp add: sped_up_player_def run_simps)

lemma seeking_player:
  "seeking_player = playing_player\<lparr>startTimeRef := 1, sourceNodeRef := Some 3,
     animationFrameRef := Some 4, next_handle := 5,
     started := [(3, \<lparr>cap_isPlaying = True, cap_playbackSpeed = 1, cap_duration = 10\<rparr>, 0)],
     frames_pending := [(4, \<lparr>cap_isPlaying = True, cap_playbackSpeed = 1, cap_duration = 10\<rparr>)]\<rparr>"
  by (simp add: seeking_player_def playing_player started_player run_simps)

lemma twice_sought_player:
  "twice_sought_player = playing_player\<lparr>startTimeRef := 2, sourceNodeRef := Some 7,
     animationFrameRef := Some 8, next_handle := 9, progress := 5, reported := [0, 5],
     started := [(7, \<lparr>cap_isPlaying = True, cap_playbackSpeed = 1, cap_duration = 10\<rparr>, 0)],
     frames_pending := [(6, \<lparr>cap_isPlaying = True, cap_playbackSpeed = 1, cap_duration = 10\<rparr>),
                        (8, \<lparr>cap_isPlaying = True, cap_playbackSpeed = 1, cap_duration = 10\<rparr>)]\<rparr>"
  by (simp add: twice_sought_player_def seeking_player playing_player started_player run_simps)

subsection \<open>End of track\<close>

text \<open>
  What \<open>onended\<close> does when the computed position is within 0.2 s of the duration or beyond,
  and what it never does: write \<open>offsetRef\<close>.
\<close>

lemma onended_keeps_offset: "offsetRef (onended c now s) = offsetRef s"
  by (simp add: onended_def Let_def)

lemma source_ended_keeps_offset: "offsetRef (source_ended h now s) = offsetRef s"
  by (simp add: source_ended_def onended_keeps_offset split: option.splits prod.splits)

lemma onended_near_end:
  assumes "audioContextRef s"
    and "cap_duration c - 1 / 5 \<le> offsetRef s + (now - startTimeRef s) * cap_playbackSpeed c"
  shows "\<not> isPlaying (onended c now s)" "progress (onended c now s) = 100"
    "reported (onended c now s) = reported s @ [100]"
  using assms by (simp_all add: onended_def Let_def)

text \<open>
  Claim C2 fails on the code. Play from offset 0 at time 0; at time 10 the source has played
  the ten seconds and its \<open>onended\<close> runs with the computed position equal to the duration.
  The engine stops playing and reports progress 100, but \<open>offsetRef\<close> is not set to the
  duration: it keeps the offset of the last start, 0. The paused position the other controls
  read is therefore 0: skipping back 5 s from the end lands at 0 with progress 0.
\<close>

theorem natural_end_leaves_offset:
  "isPlaying playing_player \<and> audioBufferRef playing_player = Some ten_seconds \<and>
   duration ten_seconds = 10 \<and> spec_true_position playing_player 10 = 10 \<and>
   \<not> isPlaying ended_player \<and> progress ended_player = 100 \<and>
   reported ended_player = [0, 100] \<and> offsetRef ended_player = 0 \<and>
   offsetRef (handleSkip silence_atob (- 5) 11 ended_player) = 0 \<and>
   progress (handleSkip silence_atob (- 5) 11 ended_player) = 0"
  by (simp add: ended_player playing_player started_player run_simps)

subsection \<open>Pause and resume\<close>

text \<open>
  The bookkeeping of a pause followed by a play. The pause computes
  \<open>offsetRef + (now - startTimeRef) * playbackSpeed\<close> with the speed of the state, stores it
  in \<open>offsetRef\<close>, stops the source and leaves the engine not playing; the next
  \<open>handleTogglePlay\<close> (pressed in that state, or after the \<open>ended\<close> event of the stopped
  source has been handled) starts a source at that offset clamped to \<open>[0, duration]\<close>.
\<close>

lemma pause_then_play_offsets:
  assumes "isPlaying s" and "audioBufferRef s = Some buffer" and "truthy (base64Audio s)"
    and "mid = handleTogglePlay atob now1 s \<or>
         mid = onended captured t (handleTogglePlay atob now1 s)"
  shows "let paused = handleTogglePlay atob now1 s;
             resumed = handleTogglePlay atob now2 mid;
             computed = offsetRef s + (now1 - startTimeRef s) * playbackSpeed s;
             resume_offset = max 0 (min computed (duration buffer))
         in \<not> isPlaying paused \<and> offsetRef paused = computed \<and> sourceNodeRef paused = None \<and>
            (\<forall>node. sourceNodeRef s = Some node \<longrightarrow> map_of (started paused) node = None) \<and>
            isPlaying resumed \<and> offsetRef resumed = resume_offset \<and>
            startTimeRef resumed = now2 \<and>
            (\<exists>h c. last (started resumed) = (h, c, resume_offset) \<and>
                   sourceNodeRef resumed = Some h)"
proof -
  define paused where "paused = handleTogglePlay atob now1 s"
  define computed where "computed = offsetRef s + (now1 - startTimeRef s) * playbackSpeed s"
  have p: "\<not> isPlaying paused" "offsetRef paused = computed" "sourceNodeRef paused = None"
    "audioBufferRef paused = Some buffer" "truthy (base64Audio paused)"
    using assms(1-3) unfolding paused_def computed_def
    by (auto simp: handleTogglePlay_def stopAudio_def Let_def split: option.splits)
  have st: "\<forall>node. sourceNodeRef s = Some node \<longrightarrow> map_of (started paused) node = None"
    using assms(1-3) unfolding paused_def
    by (auto simp: handleTogglePlay_def stopAudio_def Let_def map_of_without
        split: option.splits)
  have m: "\<not> isPlaying mid" "offsetRef mid = computed" "sourceNodeRef mid = None"
    "audioBufferRef mid = Some buffer" "truthy (base64Audio mid)"
    using assms(4) p unfolding paused_def [symmetric]
    by (auto simp: onended_def Let_def split: if_splits)
  define resumed where "resumed = handleTogglePlay atob now2 mid"
  define c where "c = \<lparr>cap_isPlaying = False,
    cap_playbackSpeed = playbackSpeed mid, cap_duration = duration buffer\<rparr>"
  have r: "resumed = mid\<lparr>audioContextRef := True,
       offsetRef := max 0 (min computed (duration buffer)),
       startTimeRef := now2,
       started := started mid @ [(next_handle mid, c, max 0 (min computed (duration buffer)))],
       sourceNodeRef := Some (next_handle mid),
       isPlaying := True,
       frames_pending := frames_pending mid @ [(Suc (next_handle mid), c)],
       animationFrameRef := Some (Suc (next_handle mid)),
       next_handle := Suc (Suc (next_handle mid))\<rparr>"
    using m unfolding resumed_def c_def
    by (simp add: handleTogglePlay_def playFromOffset_def Let_def)
  show ?thesis
    unfolding Let_def paused_def [symmetric] resumed_def [symmetric] computed_def [symmetric]
    using p st by (auto simp: r)
qed

text \<open>
  The speed \<open>onended\<close> and \<open>updateProgress\<close> use is the one their closure captured, the rate
  of the source; the pause uses the speed of the state. While the two agree, and the position
  lies within the buffer, the offset of the pause and of the resume is the position that was
  being heard.
\<close>

lemma onended_closure_position:
  "onended c now s =
     (if audioContextRef s \<and> cap_duration c - 1 / 5 \<le> closure_position c now s
      then s\<lparr>isPlaying := False, progress := 100, reported := reported s @ [100]\<rparr>
      else s)"
  by (simp add: onended_def closure_position_def Let_def)

lemma pause_resume_same_speed:
  assumes "isPlaying s" and "audioBufferRef s = Some buffer" and "truthy (base64Audio s)"
    and "cap_playbackSpeed c = playbackSpeed s"
    and "0 \<le> closure_position c now1 s" and "closure_position c now1 s \<le> duration buffer"
  shows "offsetRef (handleTogglePlay atob now1 s) = closure_position c now1 s"
    and "offsetRef (handleTogglePlay atob now2 (handleTogglePlay atob now1 s)) =
           closure_position c now1 s"
proof -
  have e: "offsetRef s + (now1 - startTimeRef s) * playbackSpeed s = closure_position c now1 s"
    using assms(4) by (simp add: closure_position_def)
  have m: "handleTogglePlay atob now1 s = handleTogglePlay atob now1 s \<or>
           handleTogglePlay atob now1 s = onended c now1 (handleTogglePlay atob now1 s)"
    by simp
  from pause_then_play_offsets [OF assms(1-3) m, of now2]
  have o: "offsetRef (handleTogglePlay atob now1 s) = closure_position c now1 s"
    "offsetRef (handleTogglePlay atob now2 (handleTogglePlay atob now1 s)) =
       max 0 (min (closure_position c now1 s) (duration buffer))"
    by (simp_all add: Let_def e)
  show "offsetRef (handleTogglePlay atob now1 s) = closure_position c now1 s" by (rule o(1))
  show "offsetRef (handleTogglePlay atob now2 (handleTogglePlay atob now1 s)) =
          closure_position c now1 s"
    using o(2) assms(5,6) by simp
qed

text \<open>
  Claim C3 fails on the code. Play at half speed at time 0, then select speed 1.2: the
  source that is sounding keeps the rate 0.5 it was started with, and its \<open>onended\<close> computes
  the position with that captured speed. At time 5 the position being heard is 2.5 s, but the
  pause multiplies the whole elapsed time by the newly selected speed and freezes
  \<open>0 + 5 * 1.2 = 6\<close>; the resume starts a source at 6 s, a jump of 3.5 s. At time 10 the
  position is 5 s, the pause freezes 12, and the resume starts at the end of the ten seconds.
\<close>

theorem pause_applies_selected_speed:
  "isPlaying sped_up_player \<and> playbackSpeed sped_up_player = 6 / 5 \<and>
   audioBufferRef sped_up_player = Some ten_seconds \<and> duration ten_seconds = 10 \<and>
   started sped_up_player =
     [(1, \<lparr>cap_isPlaying = False, cap_playbackSpeed = 1 / 2, cap_duration = 10\<rparr>, 0)] \<and>
   closure_position \<lparr>cap_isPlaying = False, cap_playbackSpeed = 1 / 2, cap_duration = 10\<rparr> 5
     sped_up_player = 5 / 2 \<and>
   offsetRef (handleTogglePlay silence_atob 5 sped_up_player) = 6 \<and>
   map (snd \<circ> snd)
     (started (handleTogglePlay silence_atob 5 (handleTogglePlay silence_atob 5 sped_up_player)))
     = [6] \<and>
   closure_position \<lparr>cap_isPlaying = False, cap_playbackSpeed = 1 / 2, cap_duration = 10\<rparr> 10
     sped_up_player = 5 \<and>
   offsetRef (handleTogglePlay silence_atob 10 sped_up_player) = 12 \<and>
   map (snd \<circ> snd)
     (started (handleTogglePlay silence_atob 10 (handleTogglePlay silence_atob 10 sped_up_player)))
     = [10]"
  by (simp add: sped_up_player run_simps closure_position_def)

subsection \<open>Loading new audio\<close>

text \<open>
  What the reset at the head of the effect does establish: the engine is not playing, offset
  and progress are 0 and reported as 0, the cached buffer is gone, the source the ref held is
  stopped and the one frame request the ref held is cancelled.
\<close>

lemma reset_for_new_audio_fields:
  "\<not> isPlaying (reset_for_new_audio s)"
  "offsetRef (reset_for_new_audio s) = 0"
  "progress (reset_for_new_audio s) = 0"
  "reported (reset_for_new_audio s) = reported s @ [0]"
  "audioBufferRef (reset_for_new_audio s) = None"
  "sourceNodeRef (reset_for_new_audio s) = None"
  by (simp_all add: reset_for_new_audio_def stopAudio_def Let_def split: option.splits)

lemma reset_for_new_audio_stops:
  "sourceNodeRef s = Some node \<Longrightarrow> map_of (started (reset_for_new_audio s)) node = None"
  "animationFrameRef s = Some h \<Longrightarrow> h \<noteq> 0 \<Longrightarrow>
     map_of (frames_pending (reset_for_new_audio s)) h = None"
  by (simp_all add: reset_for_new_audio_def stopAudio_def Let_def map_of_without
      split: option.splits)

text \<open>
  The engine keeps at most one source sounding, so the reset stops every source in flight.
\<close>

lemma one_source_initial: "one_source initial_player"
  by (simp add: one_source_def initial_player_def)

lemma one_source_cong:
  "sourceNodeRef s' = sourceNodeRef s \<Longrightarrow> started s' = started s \<Longrightarrow>
     one_source s' = one_source s"
  by (simp add: one_source_def)

lemma list_all_without: "list_all P xs \<Longrightarrow> list_all P (without h xs)"
  by (induction xs) (auto simp: without_def)

lemma one_source_no_ref: "one_source s \<Longrightarrow> sourceNodeRef s = None \<Longrightarrow> started s = []"
  by (cases "started s") (simp_all add: one_source_def)

lemma one_source_without:
  "one_source s \<Longrightarrow> sourceNodeRef s = Some node \<Longrightarrow> without node (started s) = []"
  by (auto simp: one_source_def without_def list_all_iff filter_empty_conv)

lemma stopAudio_started: "one_source s \<Longrightarrow> started (stopAudio r s) = []"
proof (cases "sourceNodeRef s")
  case None
  assume "one_source s"
  with None have "started s = []" by (rule one_source_no_ref [rotated])
  with None show ?thesis by (simp add: stopAudio_def Let_def split: option.splits)
next
  case (Some node)
  assume "one_source s"
  with Some have "without node (started s) = []" by (rule one_source_without [rotated])
  with Some show ?thesis by (simp add: stopAudio_def Let_def split: option.splits)
qed

lemma one_source_stopAudio: "one_source s \<Longrightarrow> one_source (stopAudio r s)"
  using stopAudio_started [of s r] by (simp add: one_source_def)

lemma one_source_loadAudio: "one_source s \<Longrightarrow> one_source (loadAudio atob s)"
  by (auto simp: one_source_def loadAudio_def Let_def split: option.splits sum.splits)

lemma one_source_playFromOffset:
  assumes "one_source s"
  shows "one_source (playFromOffset atob startOffset now s)"
proof (cases "truthy (base64Audio s)")
  case False
  then show ?thesis using assms by (simp add: playFromOffset_def)
next
  case True
  define s2 where "s2 = (if audioBufferRef s = None then loadAudio atob (s\<lparr>audioContextRef := True\<rparr>)
     else s\<lparr>audioContextRef := True\<rparr>)"
  have "one_source (s\<lparr>audioContextRef := True\<rparr>)" using assms by (simp add: one_source_def)
  then have o2: "one_source s2" unfolding s2_def by (simp add: one_source_loadAudio)
  show ?thesis
  proof (cases "audioBufferRef s2")
    case None
    then show ?thesis using True o2 by (simp add: playFromOffset_def s2_def Let_def)
  next
    case (Some buffer)
    show ?thesis
    proof (cases "sourceNodeRef s2")
      case None
      with o2 have "started s2 = []" by (rule one_source_no_ref)
      with None Some True show ?thesis
        by (simp add: playFromOffset_def s2_def [symmetric] Let_def one_source_def)
    next
      case (Some node)
      with o2 have "without node (started s2) = []" by (rule one_source_without)
      with Some \<open>audioBufferRef s2 = Some buffer\<close> True show ?thesis
        by (simp add: playFromOffset_def s2_def [symmetric] Let_def one_source_def)
    qed
  qed
qed

lemma one_source_updateProgress: "one_source s \<Longrightarrow> one_source (updateProgress c now s)"
  by (simp add: one_source_def updateProgress_def Let_def)

lemma one_source_animation_frame: "one_source s \<Longrightarrow> one_source (animation_frame h now s)"
proof -
  assume "one_source s"
  then have "one_source (s\<lparr>frames_pending := without h (frames_pending s)\<rparr>)"
    by (simp add: one_source_def)
  then show ?thesis
    using \<open>one_source s\<close> by (simp add: animation_frame_def one_source_updateProgress split: option.splits)
qed

lemma one_source_onended: "one_source s \<Longrightarrow> one_source (onended c now s)"
  by (simp add: one_source_def onended_def Let_def)

lemma one_source_source_ended: "one_source s \<Longrightarrow> one_source (source_ended h now s)"
proof -
  assume a: "one_source s"
  then have "one_source (s\<lparr>started := without h (started s)\<rparr>)"
    by (simp add: one_source_def list_all_without)
  then show ?thesis
    using a by (simp add: source_ended_def one_source_onended split: option.splits prod.splits)
qed

lemma one_source_handleTogglePlay: "one_source s \<Longrightarrow> one_source (handleTogglePlay atob now s)"
proof -
  assume a: "one_source s"
  then have "one_source (s\<lparr>offsetRef := offsetRef s + (now - startTimeRef s) * playbackSpeed s\<rparr>)"
    by (simp add: one_source_def)
  then show ?thesis
    using a by (simp add: handleTogglePlay_def one_source_stopAudio one_source_playFromOffset)
qed

lemma one_source_handleSkip: "one_source s \<Longrightarrow> one_source (handleSkip atob seconds now s)"
proof (cases "isPlaying s")
  case True
  assume "one_source s"
  then show ?thesis
    using True by (simp add: handleSkip_def one_source_playFromOffset Let_def split: option.splits)
next
  case False
  assume "one_source s"
  then show ?thesis
    using False by (simp add: handleSkip_def Let_def one_source_def split: option.splits)
qed

lemma one_source_handleProgressBarClick:
  "one_source s \<Longrightarrow> one_source (handleProgressBarClick atob fraction now s)"
proof (cases "isPlaying s")
  case True
  assume "one_source s"
  then show ?thesis
    using True
    by (simp add: handleProgressBarClick_def one_source_playFromOffset Let_def split: option.splits)
next
  case False
  assume "one_source s"
  then show ?thesis
    using False by (simp add: handleProgressBarClick_def Let_def one_source_def split: option.splits)
qed

lemma one_source_setPlaybackSpeed: "one_source s \<Longrightarrow> one_source (setPlaybackSpeed v s)"
  by (simp add: setPlaybackSpeed_def one_source_def)

lemma reset_stops_every_source: "one_source s \<Longrightarrow> started (reset_for_new_audio s) = []"
  by (simp add: reset_for_new_audio_def stopAudio_started)

lemma one_source_base64Audio_effect:
  "one_source s \<Longrightarrow> one_source (base64Audio_effect atob new_audio s)"
proof -
  assume "one_source s"
  then have "one_source (s\<lparr>base64Audio := new_audio\<rparr>)" by (simp add: one_source_def)
  then have "one_source (reset_for_new_audio (s\<lparr>base64Audio := new_audio\<rparr>))"
    using one_source_stopAudio [of "s\<lparr>base64Audio := new_audio\<rparr>" True]
    by (simp add: reset_for_new_audio_def one_source_def)
  then show ?thesis by (simp add: base64Audio_effect_def Let_def one_source_loadAudio)
qed

text \<open>Frame requests other than the one the ref holds are left pending by the reset.\<close>

lemma map_of_without_other: "h' \<noteq> h \<Longrightarrow> map_of (without h xs) h' = map_of xs h'"
  by (induction xs) (auto simp: without_def)

lemma reset_keeps_other_ticks:
  assumes "animationFrameRef s = Some h" "h' \<noteq> h"
  shows "map_of (frames_pending (reset_for_new_audio s)) h' = map_of (frames_pending s) h'"
  using assms
  by (auto simp: reset_for_new_audio_def stopAudio_def Let_def map_of_without_other
      split: option.splits)

text \<open>
  Claim C8 fails on the code. \<open>playFromOffset\<close> stops the previous source but does not cancel
  the previous frame request, so after two clicks on the progress bar while playing two
  reporter loops are pending and the ref holds the handle of the second. When the audio prop
  then changes (to a new value, or to \<open>null\<close> as the session controller sets it first), the
  reset cancels one request; the other stays pending, and its next frame, at time 4, reports
  progress 20 for an engine that was reset to offset 0 and is not playing.
\<close>

theorem new_audio_leaves_tick_pending:
  "map fst (frames_pending twice_sought_player) = [6, 8] \<and>
   animationFrameRef twice_sought_player = Some 8 \<and>
   map fst (frames_pending (base64Audio_effect silence_atob (Some (js ''AAAB'')) twice_sought_player))
     = [6] \<and>
   started (base64Audio_effect silence_atob (Some (js ''AAAB'')) twice_sought_player) = [] \<and>
   \<not> isPlaying (base64Audio_effect silence_atob (Some (js ''AAAB'')) twice_sought_player) \<and>
   offsetRef (base64Audio_effect silence_atob (Some (js ''AAAB'')) twice_sought_player) = 0 \<and>
   progress (base64Audio_effect silence_atob (Some (js ''AAAB'')) twice_sought_player) = 0 \<and>
   reported (animation_frame 6 4
     (base64Audio_effect silence_atob (Some (js ''AAAB'')) twice_sought_player)) = [0, 5, 0, 20] \<and>
   map fst (frames_pending (base64Audio_effect silence_atob None twice_sought_player)) = [6] \<and>
   progress (animation_frame 6 4
     (base64Audio_effect silence_atob None twice_sought_player)) = 20"
  using decode_silence
  by (simp add: twice_sought_player playing_player started_player run_simps
      decodeBase64_def silence_atob_def js_def)

subsection \<open>Progress reporter\<close>

text \<open>
  A reporter whose closure holds \<open>isPlaying = true\<close>, the audio context existing: it computes
  the position with the captured speed, derives \<open>min(position / duration * 100, 100)\<close>, stores
  it and passes it to the callback, and requests one further frame exactly when that
  progress is below 100. A reporter whose closure holds \<open>isPlaying = false\<close> returns at once.
\<close>

lemma updateProgress_captured_playing:
  assumes "map_of (frames_pending s) h = Some captured"
    and "audioContextRef s" and "cap_isPlaying captured"
  shows "let p = min (closure_position captured now s / cap_duration captured * 100) 100;
             s' = animation_frame h now s
         in progress s' = p \<and> reported s' = reported s @ [p] \<and>
            (p < 100 \<longrightarrow>
               frames_pending s' =
                 without h (frames_pending s) @ [(Suc (next_handle s), captured)] \<and>
               animationFrameRef s' = Some (Suc (next_handle s))) \<and>
            (100 \<le> p \<longrightarrow> frames_pending s' = without h (frames_pending s))"
  using assms
  by (auto simp: animation_frame_def updateProgress_def closure_position_def Let_def)

lemma updateProgress_captured_paused:
  "\<not> cap_isPlaying captured \<Longrightarrow> updateProgress captured now s = s"
  by (simp add: updateProgress_def)

text \<open>
  \<open>playFromOffset\<close> hands the \<open>isPlaying\<close> of its own render to the reporter it starts. A
  seek while playing starts one that reports: after the click at time 1, the frame at time
  1.5 reports 5 and requests the next frame, and a frame past the end reports 100 and
  requests none.
\<close>

lemma playFromOffset_captures_isPlaying:
  assumes "truthy (base64Audio s)" and "audioBufferRef s = Some buffer"
  shows "cap_isPlaying (snd (last (frames_pending (playFromOffset atob startOffset now s)))) =
           isPlaying s"
    and "isPlaying (playFromOffset atob startOffset now s)"
  using assms by (simp_all add: playFromOffset_def Let_def split: option.splits)

lemma seek_reporter_reports:
  "progress (animation_frame 4 (3 / 2) seeking_player) = 5 \<and>
   reported (animation_frame 4 (3 / 2) seeking_player) = [0, 5] \<and>
   map fst (frames_pending (animation_frame 4 (3 / 2) seeking_player)) = [6] \<and>
   reported (animation_frame 4 11 seeking_player) = [0, 100] \<and>
   frames_pending (animation_frame 4 11 seeking_player) = []"
  by (simp add: seeking_player playing_player started_player run_simps)

text \<open>
  Claim C9 fails on the code. Play is pressed on the loaded, paused player at time 0: the
  engine is playing, and the one pending reporter is the one \<open>playFromOffset\<close> created in the
  render where \<open>isPlaying\<close> was false. Its frame at time 1/60 finds the position at 1/60 s,
  progress \<open>1/6\<close> of a percent, but returns at its guard: nothing is stored, the callback is
  not invoked, and no further frame is requested although the progress is below 100. The
  same holds for every later moment of this playback: no reporter is pending any more.
\<close>

theorem play_reporter_reports_nothing:
  "\<not> isPlaying loaded_player \<and> started_player = handleTogglePlay silence_atob 0 loaded_player \<and>
   isPlaying started_player \<and>
   frames_pending started_player =
     [(2, \<lparr>cap_isPlaying = False, cap_playbackSpeed = 1, cap_duration = 10\<rparr>)] \<and>
   closure_position \<lparr>cap_isPlaying = False, cap_playbackSpeed = 1, cap_duration = 10\<rparr> (1 / 60)
     started_player = 1 / 60 \<and>
   isPlaying (animation_frame 2 (1 / 60) started_player) \<and>
   progress (animation_frame 2 (1 / 60) started_player) = 0 \<and>
   reported (animation_frame 2 (1 / 60) started_player) = reported loaded_player \<and>
   frames_pending (animation_frame 2 (1 / 60) started_player) = []"
  by (simp add: started_player run_simps closure_position_def)

end
